theory Spec2Isabelle
  imports Main "HOL-Library.Sublist"
begin

section \<open>JavaScript values used by the dashboard\<close>

text \<open>
  Strings are \<^typ>\<open>string\<close>. An optional or possibly \<open>undefined\<close>/\<open>null\<close> value is an
  \<^typ>\<open>'a option\<close>. A number that comes out of \<open>Number.parseInt\<close> or out of a
  \<open>Date\<close> is an integer or \<open>NaN\<close>; every other number of the program (ids, counters) is an
  \<^typ>\<open>int\<close>.
\<close>

datatype jsnum = NaN | Num int

text \<open>Truthiness of a string that may be absent: \<open>undefined\<close>, \<open>null\<close> and \<open>""\<close> are falsy.\<close>

fun truthy_str :: "string option \<Rightarrow> bool" where
  "truthy_str None = False"
| "truthy_str (Some s) = (s \<noteq> [])"

text \<open>\<open>a < b\<close> and \<open>a > b\<close> on numbers: a comparison with \<open>NaN\<close> is false.\<close>

fun js_less :: "jsnum \<Rightarrow> jsnum \<Rightarrow> bool" where
  "js_less (Num a) (Num b) = (a < b)"
| "js_less _ _ = False"

section \<open>Wire format (\<open>app/types/github.ts\<close>)\<close>

record GitHubUser =
  gu_login :: string
  gu_id :: int
  gu_avatar_url :: string
  gu_html_url :: string
  gu_type :: string

record GitHubLabel =
  gl_id :: int
  gl_node_id :: string
  gl_url :: string
  gl_name :: string
  gl_color :: string
  gl_default :: bool
  gl_description :: "string option"

record GitHubRepository =
  gr_id :: int
  gr_name :: string
  gr_full_name :: string
  gr_owner :: GitHubUser
  gr_private :: bool
  gr_html_url :: string
  gr_default_branch :: string
  gr_open_issues_count :: int
  gr_updated_at :: string

text \<open>The remote state of a pull request is \<open>'open' | 'closed'\<close>.\<close>

datatype raw_state = RawOpen | RawClosed

record GitHubPullRequest =
  gpr_id :: int
  gpr_number :: int
  gpr_state :: raw_state
  gpr_title :: string
  gpr_user :: GitHubUser
  gpr_created_at :: string
  gpr_updated_at :: string
  gpr_closed_at :: "string option"
  gpr_merged_at :: "string option"
  gpr_assignees :: "GitHubUser list"
  gpr_requested_reviewers :: "GitHubUser list"
  gpr_labels :: "GitHubLabel list"
  gpr_draft :: bool
  gpr_base_repo :: GitHubRepository
  gpr_html_url :: string
  gpr_comments :: int
  gpr_review_comments :: int
  gpr_additions :: int
  gpr_deletions :: int
  gpr_changed_files :: int

section \<open>Application types (\<open>app/types/index.ts\<close>)\<close>

datatype pr_state = Open | Closed | Merged | Draft

text \<open>\<open>'open' | 'closed'\<close> is a subtype of the normalized state: the same string.\<close>

fun of_raw :: "raw_state \<Rightarrow> pr_state" where
  "of_raw RawOpen = Open"
| "of_raw RawClosed = Closed"

record Label =
  l_id :: int
  l_name :: string
  l_color :: string
  l_description :: "string option"

record Author =
  a_login :: string
  a_avatarUrl :: string
  a_url :: string

record RepoInfo =
  ri_name :: string
  ri_fullName :: string
  ri_owner :: string

text \<open>A \<open>Date\<close> is its time value: milliseconds since the epoch, \<open>NaN\<close> for an invalid date.\<close>

record PullRequest =
  pr_id :: int
  pr_number :: int
  pr_title :: string
  pr_state :: pr_state
  pr_author :: Author
  pr_repository :: RepoInfo
  pr_labels :: "Label list"
  pr_assignees :: "string list"
  pr_reviewers :: "string list"
  pr_createdAt :: jsnum
  pr_updatedAt :: jsnum
  pr_closedAt :: "jsnum option"
  pr_mergedAt :: "jsnum option"
  pr_url :: string
  pr_comments :: int
  pr_reviewComments :: int
  pr_additions :: int
  pr_deletions :: int
  pr_changedFiles :: int
  pr_isDraft :: bool
  pr_isApproved :: bool

definition transformLabel :: "GitHubLabel \<Rightarrow> Label" where
  "transformLabel label =
     \<lparr>l_id = gl_id label, l_name = gl_name label, l_color = gl_color label,
      l_description = gl_description label\<rparr>"

text \<open>\<open>x ? new Date(x) : undefined\<close> for an optional timestamp string \<open>x\<close>.\<close>

fun date_or_undefined :: "(string \<Rightarrow> jsnum) \<Rightarrow> string option \<Rightarrow> jsnum option" where
  "date_or_undefined newDate None = None"
| "date_or_undefined newDate (Some s) = (if s \<noteq> [] then Some (newDate s) else None)"

text \<open>
  \<open>transformPullRequest\<close>. The parameter \<open>newDate\<close> is \<open>new Date(s)\<close>: the time value parsed
  from a timestamp string.
\<close>

definition transformPullRequest :: "(string \<Rightarrow> jsnum) \<Rightarrow> GitHubPullRequest \<Rightarrow> PullRequest" where
  "transformPullRequest newDate pr =
     (let isMerged = truthy_str (gpr_merged_at pr);
          isDraft = gpr_draft pr;
          state = (if isDraft then Draft else if isMerged then Merged else of_raw (gpr_state pr))
      in \<lparr>pr_id = gpr_id pr,
          pr_number = gpr_number pr,
          pr_title = gpr_title pr,
          pr_state = state,
          pr_author = \<lparr>a_login = gu_login (gpr_user pr),
                       a_avatarUrl = gu_avatar_url (gpr_user pr),
                       a_url = gu_html_url (gpr_user pr)\<rparr>,
          pr_repository = \<lparr>ri_name = gr_name (gpr_base_repo pr),
                           ri_fullName = gr_full_name (gpr_base_repo pr),
                           ri_owner = gu_login (gr_owner (gpr_base_repo pr))\<rparr>,
          pr_labels = map (\<lambda>label. \<lparr>l_id = gl_id label, l_name = gl_name label,
                                      l_color = gl_color label,
                                      l_description = gl_description label\<rparr>) (gpr_labels pr),
          pr_assignees = map gu_login (gpr_assignees pr),
          pr_reviewers = map gu_login (gpr_requested_reviewers pr),
          pr_createdAt = newDate (gpr_created_at pr),
          pr_updatedAt = newDate (gpr_updated_at pr),
          pr_closedAt = date_or_undefined newDate (gpr_closed_at pr),
          pr_mergedAt = date_or_undefined newDate (gpr_merged_at pr),
          pr_url = gpr_html_url pr,
          pr_comments = gpr_comments pr,
          pr_reviewComments = gpr_review_comments pr,
          pr_additions = gpr_additions pr,
          pr_deletions = gpr_deletions pr,
          pr_changedFiles = gpr_changed_files pr,
          pr_isDraft = isDraft,
          pr_isApproved = False\<rparr>)"

section \<open>String operations\<close>

text \<open>\<open>s.startsWith(p)\<close>, \<open>s.includes(q)\<close> and \<open>s.includes(c)\<close> for a single character.\<close>

definition startsWith :: "string \<Rightarrow> string \<Rightarrow> bool" where
  "startsWith s p = prefix p s"

definition str_includes :: "string \<Rightarrow> string \<Rightarrow> bool" where
  "str_includes s q = list_ex (prefix q) (suffixes s)"

definition str_includes_char :: "string \<Rightarrow> char \<Rightarrow> bool" where
  "str_includes_char s c = list_ex (\<lambda>d. d = c) s"

text \<open>\<open>toLowerCase\<close> on the ASCII letters; every other character is left as it is.\<close>

definition lower_char :: "char \<Rightarrow> char" where
  "lower_char c =
     (let n = (of_char c :: nat) in if 65 \<le> n \<and> n \<le> 90 then char_of (n + 32) else c)"

definition toLowerCase :: "string \<Rightarrow> string" where
  "toLowerCase s = map lower_char s"

text \<open>White space as \<open>trim\<close> and \<open>parseInt\<close> strip it (tab, LF, VT, FF, CR, space, NBSP).\<close>

definition is_ws :: "char \<Rightarrow> bool" where
  "is_ws c = ((of_char c :: nat) \<in> {9, 10, 11, 12, 13, 32, 160})"

definition trim :: "string \<Rightarrow> string" where
  "trim s = rev (dropWhile is_ws (rev (dropWhile is_ws s)))"

text \<open>\<open>s.split(sep)\<close> for a one-character separator: never empty, \<open>"".split(sep) = [""]\<close>.\<close>

fun split :: "char \<Rightarrow> string \<Rightarrow> string list" where
  "split sep [] = [[]]"
| "split sep (c # cs) =
     (if c = sep then [] # split sep cs
      else (case split sep cs of [] \<Rightarrow> [[c]] | x # xs \<Rightarrow> (c # x) # xs))"

text \<open>Decimal digits of a natural number, and \<open>n.toString()\<close> for an integer.\<close>

fun digits :: "nat \<Rightarrow> string" where
  "digits n = (if n < 10 then [char_of (48 + n)] else digits (n div 10) @ [char_of (48 + n mod 10)])"

definition toString :: "int \<Rightarrow> string" where
  "toString n = (if n < 0 then CHR ''-'' # digits (nat (- n)) else digits (nat n))"

text \<open>A value inside a template literal: \<open>undefined\<close> prints as the word.\<close>

fun tmpl :: "string option \<Rightarrow> string" where
  "tmpl None = ''undefined''"
| "tmpl (Some s) = s"

text \<open>
  \<open>Number.parseInt(s, 10)\<close>: leading white space is skipped, then an optional sign, then
  the longest run of decimal digits; \<open>NaN\<close> when there is no digit.
\<close>

definition is_digit :: "char \<Rightarrow> bool" where
  "is_digit c = (48 \<le> (of_char c :: nat) \<and> (of_char c :: nat) \<le> 57)"

definition digits_value :: "string \<Rightarrow> int" where
  "digits_value ds = foldl (\<lambda>acc d. 10 * acc + (int (of_char d) - 48)) 0 ds"

definition parse_digits :: "string \<Rightarrow> jsnum" where
  "parse_digits s = (let ds = takeWhile is_digit s in if ds = [] then NaN else Num (digits_value ds))"

fun js_neg :: "jsnum \<Rightarrow> jsnum" where
  "js_neg NaN = NaN"
| "js_neg (Num n) = Num (- n)"

definition parseInt :: "string \<Rightarrow> jsnum" where
  "parseInt s =
     (case dropWhile is_ws s of
        [] \<Rightarrow> NaN
      | c # cs \<Rightarrow> if c = CHR ''-'' then js_neg (parse_digits cs)
                 else if c = CHR ''+'' then parse_digits cs
                 else parse_digits (c # cs))"

fun js_times :: "jsnum \<Rightarrow> int \<Rightarrow> jsnum" where
  "js_times NaN k = NaN"
| "js_times (Num n) k = Num (n * k)"

section \<open>Grouping by label (\<open>GroupedPRDisplay\<close>)\<close>

record PRGroup =
  g_label :: string
  g_labelColor :: string
  g_pullRequests :: "PullRequest list"

text \<open>
  \<open>groups\<close>: one group per selected label, in the order of the selection. \<open>label?.color ||
  '6b7280'\<close> falls back when no available label has the name or its colour is empty.
\<close>

definition groups :: "PullRequest list \<Rightarrow> string list \<Rightarrow> Label list \<Rightarrow> PRGroup list" where
  "groups pullRequests groupByLabels availableLabels =
     map (\<lambda>labelName.
       let label = find (\<lambda>l. l_name l = labelName) availableLabels;
           isPrefix = (\<not> str_includes_char labelName CHR '':'' \<and>
                       list_ex (\<lambda>l. startsWith (l_name l) (labelName @ '':'')) availableLabels);
           prsWithLabel = filter (\<lambda>pr.
             list_ex (\<lambda>l. if isPrefix then startsWith (l_name l) (labelName @ '':'')
                            else l_name l = labelName) (pr_labels pr)) pullRequests
       in \<lparr>g_label = labelName,
           g_labelColor = (case label of
                             None \<Rightarrow> ''6b7280''
                           | Some l \<Rightarrow> if l_color l \<noteq> [] then l_color l else ''6b7280''),
           g_pullRequests = prsWithLabel\<rparr>) groupByLabels"

text \<open>\<open>ungroupedPRs\<close>: the second pass, written on its own in the source.\<close>

definition ungroupedPRs :: "PullRequest list \<Rightarrow> string list \<Rightarrow> Label list \<Rightarrow> PullRequest list" where
  "ungroupedPRs pullRequests groupByLabels availableLabels =
     filter (\<lambda>pr.
       \<not> list_ex (\<lambda>prLabel.
           list_ex (\<lambda>selectedLabel.
             let isPrefix = (\<not> str_includes_char selectedLabel CHR '':'' \<and>
                             list_ex (\<lambda>l. startsWith (l_name l) (selectedLabel @ '':''))
                               availableLabels)
             in if isPrefix then startsWith (l_name prLabel) (selectedLabel @ '':'')
                else l_name prLabel = selectedLabel) groupByLabels) (pr_labels pr)) pullRequests"

text \<open>
  The grouping rule in the words of the specification: a selected label is a prefix group
  when it has no colon and some available label's name begins with the label followed by
  a colon; a record belongs to a prefix group when one of its labels begins that way, and
  to any other group when one of its labels has exactly the selected name.
\<close>

definition spec_is_prefix_group :: "string \<Rightarrow> Label list \<Rightarrow> bool" where
  "spec_is_prefix_group G availableLabels =
     (CHR '':'' \<notin> set G \<and> (\<exists>l \<in> set availableLabels. prefix (G @ '':'') (l_name l)))"

definition spec_group_member :: "string \<Rightarrow> Label list \<Rightarrow> PullRequest \<Rightarrow> bool" where
  "spec_group_member G availableLabels pr =
     (if spec_is_prefix_group G availableLabels
      then (\<exists>l \<in> set (pr_labels pr). prefix (G @ '':'') (l_name l))
      else (\<exists>l \<in> set (pr_labels pr). l_name l = G))"

section \<open>Client-side filters (\<open>usePullRequests\<close>)\<close>

text \<open>\<open>Partial<FilterOptions>\<close>: every field may be absent.\<close>

record FilterOptions =
  f_repositories :: "string list option"
  f_labels :: "string list option"
  f_states :: "pr_state list option"
  f_assignees :: "string list option"
  f_authors :: "string list option"
  f_reviewers :: "string list option"
  f_searchQuery :: "string option"
  f_dateFrom :: "jsnum option"
  f_dateTo :: "jsnum option"

text \<open>
  The callback of \<open>pullRequests.filter\<close>: each block returns \<open>false\<close> early, the end
  returns \<open>true\<close>. An array and a \<open>Date\<close> are truthy whenever they are present.
\<close>

definition matchesFilters :: "FilterOptions \<Rightarrow> PullRequest \<Rightarrow> bool" where
  "matchesFilters filters pr =
     (if (case f_states filters of None \<Rightarrow> False
          | Some states \<Rightarrow> 0 < length states \<and> pr_state pr \<notin> set states) then False
      else if (case f_repositories filters of None \<Rightarrow> False
          | Some repositories \<Rightarrow>
              0 < length repositories \<and> ri_fullName (pr_repository pr) \<notin> set repositories)
        then False
      else if (case f_labels filters of None \<Rightarrow> False
          | Some labels \<Rightarrow> 0 < length labels \<and>
              (let prLabelNames = map l_name (pr_labels pr);
                   hasMatchingLabel = list_ex (\<lambda>filterLabel. filterLabel \<in> set prLabelNames) labels
               in \<not> hasMatchingLabel)) then False
      else if (case f_assignees filters of None \<Rightarrow> False
          | Some assignees \<Rightarrow> 0 < length assignees \<and>
              (let hasMatchingAssignee =
                     list_ex (\<lambda>assignee. assignee \<in> set (pr_assignees pr)) assignees
               in \<not> hasMatchingAssignee)) then False
      else if (case f_authors filters of None \<Rightarrow> False
          | Some authors \<Rightarrow> 0 < length authors \<and> a_login (pr_author pr) \<notin> set authors)
        then False
      else if (case f_reviewers filters of None \<Rightarrow> False
          | Some reviewers \<Rightarrow> 0 < length reviewers \<and>
              (let hasMatchingReviewer =
                     list_ex (\<lambda>reviewer. reviewer \<in> set (pr_reviewers pr)) reviewers
               in \<not> hasMatchingReviewer)) then False
      else if (case f_searchQuery filters of None \<Rightarrow> False
          | Some searchQuery \<Rightarrow> searchQuery \<noteq> [] \<and>
              (let query = toLowerCase searchQuery;
                   matchesTitle = str_includes (toLowerCase (pr_title pr)) query;
                   matchesNumber = str_includes (toString (pr_number pr)) query;
                   matchesAuthor = str_includes (toLowerCase (a_login (pr_author pr))) query
               in \<not> matchesTitle \<and> \<not> matchesNumber \<and> \<not> matchesAuthor)) then False
      else if (case f_dateFrom filters of None \<Rightarrow> False
          | Some dateFrom \<Rightarrow> js_less (pr_createdAt pr) dateFrom) then False
      else if (case f_dateTo filters of None \<Rightarrow> False
          | Some dateTo \<Rightarrow> js_less dateTo (pr_createdAt pr)) then False
      else True)"

definition filteredPullRequests :: "PullRequest list \<Rightarrow> FilterOptions \<Rightarrow> PullRequest list" where
  "filteredPullRequests pullRequests filters = filter (matchesFilters filters) pullRequests"

section \<open>The GitHub client (\<open>GitHubClient\<close>)\<close>

text \<open>The error body of the remote API, and what the client and its callees throw.\<close>

record GitHubAPIErrorBody =
  eb_message :: string
  eb_documentation_url :: "string option"
  eb_status :: "int option"

datatype error =
    GitHubAPIError string "int option" "GitHubAPIErrorBody option"
  | NetworkError string
  | JsonSyntaxError
  | RangeError string

text \<open>
  The client object. \<open>rateLimitRemaining\<close> and \<open>rateLimitReset\<close> start as \<open>null\<close> and are the
  only fields a request writes.
\<close>

record GitHubClient =
  token :: string
  baseUrl :: string
  rateLimitRemaining :: "jsnum option"
  rateLimitReset :: "jsnum option"

definition newGitHubClient :: "string \<Rightarrow> string option \<Rightarrow> GitHubClient" where
  "newGitHubClient tok base =
     \<lparr>token = tok,
      baseUrl = (case base of
                   None \<Rightarrow> ''https://api.github.com''
                 | Some b \<Rightarrow> if b \<noteq> [] then b else ''https://api.github.com''),
      rateLimitRemaining = None,
      rateLimitReset = None\<rparr>"

text \<open>
  One HTTP exchange. A response carries its status, the two rate-limit headers as
  \<open>headers.get\<close> returns them (\<open>null\<close> when absent), and what \<open>response.json()\<close> resolves to:
  \<open>rs_json\<close> when the body is read as the expected data, \<open>rs_error_json\<close> when it is read
  as an error body; \<open>None\<close> where \<open>response.json()\<close> rejects.
\<close>

record request =
  rq_url :: string
  rq_headers :: "(string \<times> string) list"

record 'a response =
  rs_ok :: bool
  rs_status :: int
  rs_statusText :: string
  rs_ratelimit_remaining :: "string option"
  rs_ratelimit_reset :: "string option"
  rs_error_json :: "GitHubAPIErrorBody option"
  rs_json :: "'a option"

text \<open>What one call of the private \<open>fetch\<close> leaves behind: its outcome (thrown error or
  returned data), the client afterwards, and the HTTP requests it sent.\<close>

record 'a fetched =
  outcome :: "error + 'a"
  client :: GitHubClient
  sent :: "request list"

text \<open>
  \<open>GitHubClient.fetch\<close>, in the three blocks of its body. Parameters: \<open>http\<close> is the
  global \<open>fetch\<close> (\<open>Inl\<close> when it rejects); \<open>toISOString\<close> is the
  text \<open>new Date(t).toISOString()\<close> gives for a time value in the range of \<open>Date\<close>;
  \<open>now1\<close> and \<open>now2\<close> are the
  two readings of \<open>Date.now()\<close>, in milliseconds since the epoch, in the order the source
  takes them. Numbers are exact integers. No caller passes request options, so the headers
  are the three the method sets.
\<close>

text \<open>
  A \<open>Date\<close> holds a time value of at most 8.64e15 milliseconds either side of the epoch;
  on any other value \<open>toISOString\<close> throws \<open>RangeError: Invalid time value\<close>.
\<close>

definition valid_time_value :: "int \<Rightarrow> bool" where
  "valid_time_value t = (- 8640000000000000 \<le> t \<and> t \<le> 8640000000000000)"

text \<open>
  The check before the request: the error it throws, if any. The message of the
  rate-limit error is built first, so a reset time no \<open>Date\<close> can hold throws there.
\<close>

definition rateLimitCheck ::
  "(int \<Rightarrow> string) \<Rightarrow> nat \<Rightarrow> nat \<Rightarrow> GitHubClient \<Rightarrow> error option" where
  "rateLimitCheck toISOString now1 now2 this =
     (if rateLimitRemaining this \<noteq> None \<and> rateLimitRemaining this = Some (Num 0)
      then (let resetTime = (case rateLimitReset this of
                               Some (Num r) \<Rightarrow> if r \<noteq> 0 then r else int now1
                             | _ \<Rightarrow> int now1);
                waitTime = resetTime - int now2
            in if waitTime > 0
               then (if valid_time_value resetTime
                     then Some (GitHubAPIError
                                  (''Rate limit exceeded. Resets at '' @ toISOString resetTime)
                                  (Some 429) None)
                     else Some (RangeError ''Invalid time value''))
               else None)
      else None)"

text \<open>The request sent: the endpoint under the base URL unless it is already absolute.\<close>

definition request_of :: "GitHubClient \<Rightarrow> string \<Rightarrow> request" where
  "request_of this endpoint =
     (let url = (if startsWith endpoint ''http'' then endpoint else baseUrl this @ endpoint)
      in \<lparr>rq_url = url,
          rq_headers = [(''Authorization'', ''Bearer '' @ token this),
                        (''Accept'', ''application/vnd.github.v3+json''),
                        (''Content-Type'', ''application/json'')]\<rparr>)"

text \<open>The update of the counters from the headers of a response, before \<open>response.ok\<close> is
  looked at.\<close>

definition updateRateLimit :: "GitHubClient \<Rightarrow> 'a response \<Rightarrow> GitHubClient" where
  "updateRateLimit this response =
     (let this1 = (case rs_ratelimit_remaining response of
                     None \<Rightarrow> this
                   | Some h \<Rightarrow> if h \<noteq> [] then this\<lparr>rateLimitRemaining := Some (parseInt h)\<rparr>
                              else this)
      in (case rs_ratelimit_reset response of
            None \<Rightarrow> this1
          | Some h \<Rightarrow> if h \<noteq> []
                     then this1\<lparr>rateLimitReset := Some (js_times (parseInt h) 1000)\<rparr>
                     else this1))"

definition fetch ::
  "(request \<Rightarrow> error + 'a response) \<Rightarrow> (int \<Rightarrow> string) \<Rightarrow> nat \<Rightarrow> nat \<Rightarrow>
   GitHubClient \<Rightarrow> string \<Rightarrow> 'a fetched" where
  "fetch http toISOString now1 now2 this endpoint =
     (case rateLimitCheck toISOString now1 now2 this of
        Some e \<Rightarrow> \<lparr>outcome = Inl e, client = this, sent = []\<rparr>
      | None \<Rightarrow>
          (let rq = request_of this endpoint
           in case http rq of
                Inl e \<Rightarrow> \<lparr>outcome = Inl e, client = this, sent = [rq]\<rparr>
              | Inr response \<Rightarrow>
                  (let this' = updateRateLimit this response
                   in if \<not> rs_ok response
                      then (let err = (case rs_error_json response of
                                         Some b \<Rightarrow> b
                                       | None \<Rightarrow> \<lparr>eb_message = rs_statusText response,
                                                   eb_documentation_url = None,
                                                   eb_status = None\<rparr>)
                            in \<lparr>outcome = Inl (GitHubAPIError
                                            (if eb_message err \<noteq> [] then eb_message err
                                             else ''GitHub API request failed'')
                                            (Some (rs_status response)) (Some err)),
                                client = this', sent = [rq]\<rparr>)
                      else \<lparr>outcome = (case rs_json response of
                                         None \<Rightarrow> Inl JsonSyntaxError
                                       | Some v \<Rightarrow> Inr v),
                            client = this', sent = [rq]\<rparr>)))"

section \<open>Multi-repository fan-out\<close>

text \<open>A repository reference as the routes build it: either part may be \<open>undefined\<close>.\<close>

record repo_ref =
  owner :: "string option"
  repo :: "string option"

record pulls_entry =
  pe_repository :: string
  pe_pullRequests :: "GitHubPullRequest list"

record labels_entry =
  le_repository :: string
  le_labels :: "GitHubLabel list"

text \<open>
  A promise is modelled by how it settles: \<open>Inl\<close> rejected with an error, \<open>Inr\<close> fulfilled
  with a value. \<open>Promise.allSettled\<close> always fulfils, with one settled result per input
  promise, in the order of the input.
\<close>

datatype 'a settled = Fulfilled 'a | Rejected error

fun status :: "'a settled \<Rightarrow> string" where
  "status (Fulfilled v) = ''fulfilled''"
| "status (Rejected e) = ''rejected''"

fun settled_value :: "'a settled \<Rightarrow> 'a" where
  "settled_value (Fulfilled v) = v"

fun settle :: "error + 'a \<Rightarrow> 'a settled" where
  "settle (Inl e) = Rejected e"
| "settle (Inr v) = Fulfilled v"

definition allSettled :: "(error + 'a) list \<Rightarrow> error + 'a settled list" where
  "allSettled promises = Inr (map settle promises)"

text \<open>
  The async callback the fan-out maps over the refs. \<open>getPullRequests i owner repo\<close> is
  how the \<open>i\<close>-th per-repository call of the batch settles (the options are the same for
  the whole batch); a rejection of the call rejects the callback's promise.
\<close>

definition pullRequestPromise ::
  "(nat \<Rightarrow> string option \<Rightarrow> string option \<Rightarrow> error + GitHubPullRequest list) \<Rightarrow>
   nat \<Rightarrow> repo_ref \<Rightarrow> error + pulls_entry" where
  "pullRequestPromise getPullRequests i r =
     (case getPullRequests i (owner r) (repo r) of
        Inl e \<Rightarrow> Inl e
      | Inr pullRequests \<Rightarrow>
          Inr \<lparr>pe_repository = tmpl (owner r) @ ''/'' @ tmpl (repo r),
               pe_pullRequests = pullRequests\<rparr>)"

definition pullRequestPromises ::
  "(nat \<Rightarrow> string option \<Rightarrow> string option \<Rightarrow> error + GitHubPullRequest list) \<Rightarrow>
   repo_ref list \<Rightarrow> (error + pulls_entry) list" where
  "pullRequestPromises getPullRequests repositories =
     map (\<lambda>(i, r). pullRequestPromise getPullRequests i r) (enumerate 0 repositories)"

definition getPullRequestsForRepositories ::
  "(nat \<Rightarrow> string option \<Rightarrow> string option \<Rightarrow> error + GitHubPullRequest list) \<Rightarrow>
   repo_ref list \<Rightarrow> error + pulls_entry list" where
  "getPullRequestsForRepositories getPullRequests repositories =
     (case allSettled (pullRequestPromises getPullRequests repositories) of
        Inl e \<Rightarrow> Inl e
      | Inr results \<Rightarrow>
          Inr (map settled_value (filter (\<lambda>result. status result = ''fulfilled'') results)))"

definition labelPromise ::
  "(nat \<Rightarrow> string option \<Rightarrow> string option \<Rightarrow> error + GitHubLabel list) \<Rightarrow>
   nat \<Rightarrow> repo_ref \<Rightarrow> error + labels_entry" where
  "labelPromise getLabels i r =
     (case getLabels i (owner r) (repo r) of
        Inl e \<Rightarrow> Inl e
      | Inr labels \<Rightarrow>
          Inr \<lparr>le_repository = tmpl (owner r) @ ''/'' @ tmpl (repo r), le_labels = labels\<rparr>)"

definition labelPromises ::
  "(nat \<Rightarrow> string option \<Rightarrow> string option \<Rightarrow> error + GitHubLabel list) \<Rightarrow>
   repo_ref list \<Rightarrow> (error + labels_entry) list" where
  "labelPromises getLabels repositories =
     map (\<lambda>(i, r). labelPromise getLabels i r) (enumerate 0 repositories)"

definition getLabelsForRepositories ::
  "(nat \<Rightarrow> string option \<Rightarrow> string option \<Rightarrow> error + GitHubLabel list) \<Rightarrow>
   repo_ref list \<Rightarrow> error + labels_entry list" where
  "getLabelsForRepositories getLabels repositories =
     (case allSettled (labelPromises getLabels repositories) of
        Inl e \<Rightarrow> Inl e
      | Inr results \<Rightarrow>
          Inr (map settled_value (filter (\<lambda>result. status result = ''fulfilled'') results)))"

section \<open>Route handlers (\<open>api/github/pulls\<close>, \<open>api/github/labels\<close>)\<close>

text \<open>
  \<open>repoList\<close>, the same in both routes: every comma-separated entry becomes a ref;
  \<open>[owner, name] = ...\<close> takes the first two pieces, \<open>undefined\<close> for a missing one.
\<close>

definition repoList :: "string \<Rightarrow> repo_ref list" where
  "repoList repositories =
     map (\<lambda>repo.
       case split CHR ''/'' (trim repo) of
         [] \<Rightarrow> \<lparr>owner = None, repo = None\<rparr>
       | [a] \<Rightarrow> \<lparr>owner = Some a, repo = None\<rparr>
       | a # b # _ \<Rightarrow> \<lparr>owner = Some a, repo = Some b\<rparr>) (split CHR '','' repositories)"

text \<open>
  The label route's \<open>labelMap\<close>: a \<open>Map\<close> keeps its keys in insertion order, so it is an
  association list that \<open>set\<close> extends at the end; \<open>uniqueLabels\<close> is its values.
\<close>

definition labelMap_has :: "(string \<times> Label) list \<Rightarrow> string \<Rightarrow> bool" where
  "labelMap_has labelMap k = (map_of labelMap k \<noteq> None)"

definition labelMap_step :: "GitHubLabel \<Rightarrow> (string \<times> Label) list \<Rightarrow> (string \<times> Label) list" where
  "labelMap_step label labelMap =
     (let transformedLabel = transformLabel label
      in if \<not> labelMap_has labelMap (l_name transformedLabel)
         then labelMap @ [(l_name transformedLabel, transformedLabel)]
         else labelMap)"

definition labelMap_of :: "labels_entry list \<Rightarrow> (string \<times> Label) list" where
  "labelMap_of results = fold (\<lambda>result labelMap. fold labelMap_step (le_labels result) labelMap) results []"

definition uniqueLabels :: "labels_entry list \<Rightarrow> Label list" where
  "uniqueLabels results = map snd (labelMap_of results)"

text \<open>The invariant of \<open>labelMap\<close>: every entry is stored under its label's name.\<close>

definition keyed_by_name :: "(string \<times> Label) list \<Rightarrow> bool" where
  "keyed_by_name m = (\<forall>(k, v) \<in> set m. l_name v = k)"

section \<open>Sample data\<close>

text \<open>Concrete records on which the properties below are exercised.\<close>

definition sample_user :: "string \<Rightarrow> GitHubUser" where
  "sample_user login =
     \<lparr>gu_login = login, gu_id = 1, gu_avatar_url = ''https://avatars.example/1'',
      gu_html_url = ''https://github.com/'' @ login, gu_type = ''User''\<rparr>"

definition sample_repository :: GitHubRepository where
  "sample_repository =
     \<lparr>gr_id = 10, gr_name = ''web'', gr_full_name = ''acme/web'', gr_owner = sample_user ''acme'',
      gr_private = False, gr_html_url = ''https://github.com/acme/web'',
      gr_default_branch = ''main'', gr_open_issues_count = 3,
      gr_updated_at = ''2024-01-02T00:00:00Z''\<rparr>"

definition sample_gh_label :: "int \<Rightarrow> string \<Rightarrow> string \<Rightarrow> GitHubLabel" where
  "sample_gh_label i name color =
     \<lparr>gl_id = i, gl_node_id = ''L'', gl_url = ''https://api.github.com/labels'', gl_name = name,
      gl_color = color, gl_default = False, gl_description = None\<rparr>"

definition sample_gh_pr :: "bool \<Rightarrow> string option \<Rightarrow> raw_state \<Rightarrow> GitHubPullRequest" where
  "sample_gh_pr draft merged_at st =
     \<lparr>gpr_id = 100, gpr_number = 42, gpr_state = st, gpr_title = ''Fix login'',
      gpr_user = sample_user ''alice'', gpr_created_at = ''2024-01-01T00:00:00Z'',
      gpr_updated_at = ''2024-01-02T00:00:00Z'', gpr_closed_at = merged_at,
      gpr_merged_at = merged_at, gpr_assignees = [], gpr_requested_reviewers = [],
      gpr_labels = [sample_gh_label 1 ''bug'' ''ff0000''], gpr_draft = draft,
      gpr_base_repo = sample_repository, gpr_html_url = ''https://github.com/acme/web/pull/42'',
      gpr_comments = 0, gpr_review_comments = 0, gpr_additions = 1, gpr_deletions = 1,
      gpr_changed_files = 1\<rparr>"

definition no_date :: "string \<Rightarrow> jsnum" where
  "no_date s = NaN"

definition sample_label :: "int \<Rightarrow> string \<Rightarrow> Label" where
  "sample_label i name = \<lparr>l_id = i, l_name = name, l_color = ''ff0000'', l_description = None\<rparr>"

definition sample_pr :: "int \<Rightarrow> pr_state \<Rightarrow> Label list \<Rightarrow> PullRequest" where
  "sample_pr n st labels =
     \<lparr>pr_id = 100 + n, pr_number = n, pr_title = ''Fix login'', pr_state = st,
      pr_author = \<lparr>a_login = ''alice'', a_avatarUrl = ''https://avatars.example/1'',
                   a_url = ''https://github.com/alice''\<rparr>,
      pr_repository = \<lparr>ri_name = ''web'', ri_fullName = ''acme/web'', ri_owner = ''acme''\<rparr>,
      pr_labels = labels, pr_assignees = [], pr_reviewers = [],
      pr_createdAt = Num 1704067200000, pr_updatedAt = Num 1704153600000,
      pr_closedAt = None, pr_mergedAt = None, pr_url = ''https://github.com/acme/web/pull'',
      pr_comments = 0, pr_reviewComments = 0, pr_additions = 1, pr_deletions = 1,
      pr_changedFiles = 1, pr_isDraft = False, pr_isApproved = False\<rparr>"

definition no_filters :: FilterOptions where
  "no_filters =
     \<lparr>f_repositories = None, f_labels = None, f_states = None, f_assignees = None,
      f_authors = None, f_reviewers = None, f_searchQuery = None, f_dateFrom = None,
      f_dateTo = None\<rparr>"

definition sample_available_labels :: "Label list" where
  "sample_available_labels =
     [sample_label 1 ''type:bug'', sample_label 2 ''type:feature'', sample_label 3 ''urgent'']"

definition sample_prs :: "PullRequest list" where
  "sample_prs =
     [sample_pr 1 Open [sample_label 1 ''type:bug''],
      sample_pr 2 Open [sample_label 2 ''type:feature''],
      sample_pr 3 Closed [sample_label 3 ''urgent''],
      sample_pr 4 Open [sample_label 4 ''docs'']]"

definition two_repo_labels :: "labels_entry list" where
  "two_repo_labels =
     [\<lparr>le_repository = ''acme/web'',
       le_labels = [sample_gh_label 1 ''bug'' ''ff0000'', sample_gh_label 2 ''docs'' ''0000ff'']\<rparr>,
      \<lparr>le_repository = ''acme/api'',
       le_labels = [sample_gh_label 7 ''bug'' ''00ff00'']\<rparr>]"

definition three_refs :: "repo_ref list" where
  "three_refs =
     [\<lparr>owner = Some ''acme'', repo = Some ''web''\<rparr>,
      \<lparr>owner = Some ''acme'', repo = Some ''api''\<rparr>,
      \<lparr>owner = Some ''acme'', repo = Some ''docs''\<rparr>]"

text \<open>A remote whose second call (index 1) rejects and whose other calls succeed.\<close>

definition second_rejects_pulls ::
  "nat \<Rightarrow> string option \<Rightarrow> string option \<Rightarrow> error + GitHubPullRequest list" where
  "second_rejects_pulls i ow rp =
     (if i = 1 then Inl (GitHubAPIError ''Not Found'' (Some 404) None) else Inr [])"

definition second_rejects_labels ::
  "nat \<Rightarrow> string option \<Rightarrow> string option \<Rightarrow> error + GitHubLabel list" where
  "second_rejects_labels i ow rp =
     (if i = 1 then Inl (NetworkError ''fetch failed'') else Inr [])"

text \<open>A remote on which every call succeeds.\<close>

definition all_succeed_pulls ::
  "nat \<Rightarrow> string option \<Rightarrow> string option \<Rightarrow> error + GitHubPullRequest list" where
  "all_succeed_pulls i ow rp = Inr []"

definition unsorted_refs :: "repo_ref list" where
  "unsorted_refs =
     [\<lparr>owner = Some ''zeta'', repo = Some ''z''\<rparr>,
      \<lparr>owner = Some ''acme'', repo = Some ''a''\<rparr>,
      \<lparr>owner = Some ''mid'', repo = Some ''m''\<rparr>]"

text \<open>A time value printed as its number of milliseconds, in place of the ISO text.\<close>

definition sample_toISOString :: "int \<Rightarrow> string" where
  "sample_toISOString t = toString t"

text \<open>
  A remote that answers every request with 403 and the headers of an exhausted rate
  limit, one that answers 200 with fresh counters, and one that is unreachable.
\<close>

definition http_forbidden :: "request \<Rightarrow> error + unit response" where
  "http_forbidden rq =
     Inr \<lparr>rs_ok = False, rs_status = 403, rs_statusText = ''Forbidden'',
          rs_ratelimit_remaining = Some ''0'', rs_ratelimit_reset = Some ''1704067200'',
          rs_error_json = Some \<lparr>eb_message = ''API rate limit exceeded'',
                                 eb_documentation_url = None, eb_status = None\<rparr>,
          rs_json = None\<rparr>"

definition http_ok :: "request \<Rightarrow> error + unit response" where
  "http_ok rq =
     Inr \<lparr>rs_ok = True, rs_status = 200, rs_statusText = ''OK'',
          rs_ratelimit_remaining = Some ''4999'', rs_ratelimit_reset = Some ''1704070800'',
          rs_error_json = None, rs_json = Some ()\<rparr>"

definition http_unreachable :: "request \<Rightarrow> error + unit response" where
  "http_unreachable rq = Inl (NetworkError ''fetch failed'')"

definition exhausted_client :: GitHubClient where
  "exhausted_client =
     \<lparr>token = ''t0ken'', baseUrl = ''https://api.github.com'',
      rateLimitRemaining = Some (Num 0), rateLimitReset = Some (Num 1704067200000)\<rparr>"




section \<open>Properties\<close>

subsection \<open>Record normalizer\<close>

text \<open>
  C1. The normalized state follows the precedence draft, then merged, then the raw remote
  state: a record whose draft flag is true is reported as draft, whatever its merge
  timestamp; a record that is not a draft and has a merge timestamp (a non-empty
  \<open>merged_at\<close> string, the only kind the truthiness test of the source counts as set) is
  reported as merged; any other record passes its raw open/closed state through unchanged.
\<close>

theorem transformPullRequest_state_precedence:
  "(gpr_draft pr \<longrightarrow> pr_state (transformPullRequest newDate pr) = Draft) \<and>
   (\<not> gpr_draft pr \<and> gpr_merged_at pr = Some ts \<and> ts \<noteq> [] \<longrightarrow>
      pr_state (transformPullRequest newDate pr) = Merged) \<and>
   (\<not> gpr_draft pr \<and> (gpr_merged_at pr = None \<or> gpr_merged_at pr = Some []) \<longrightarrow>
      pr_state (transformPullRequest newDate pr) = of_raw (gpr_state pr))"
  by (auto simp: transformPullRequest_def Let_def)

theorem transformPullRequest_state_precedence_witness:
  "gpr_draft (sample_gh_pr True (Some ''2024-01-01T00:00:00Z'') RawClosed) \<and>
   pr_state (transformPullRequest no_date
      (sample_gh_pr True (Some ''2024-01-01T00:00:00Z'') RawClosed)) = Draft \<and>
   \<not> gpr_draft (sample_gh_pr False (Some ''2024-01-01T00:00:00Z'') RawClosed) \<and>
   pr_state (transformPullRequest no_date
      (sample_gh_pr False (Some ''2024-01-01T00:00:00Z'') RawClosed)) = Merged \<and>
   \<not> gpr_draft (sample_gh_pr False None RawOpen) \<and>
   pr_state (transformPullRequest no_date (sample_gh_pr False None RawOpen)) = Open \<and>
   pr_state (transformPullRequest no_date (sample_gh_pr False (Some []) RawClosed)) = Closed"
  using transformPullRequest_state_precedence
          [of "sample_gh_pr True (Some ''2024-01-01T00:00:00Z'') RawClosed" no_date]
        transformPullRequest_state_precedence
          [of "sample_gh_pr False (Some ''2024-01-01T00:00:00Z'') RawClosed" no_date
              "''2024-01-01T00:00:00Z''"]
        transformPullRequest_state_precedence [of "sample_gh_pr False None RawOpen" no_date]
        transformPullRequest_state_precedence [of "sample_gh_pr False (Some []) RawClosed" no_date]
  by (simp add: sample_gh_pr_def)

subsection \<open>Grouping engine\<close>

text \<open>The two passes of the source agree with the rule as the specification words it.\<close>

lemmas sample_defs = sample_prs_def sample_available_labels_def sample_pr_def sample_label_def

lemma source_prefix_test:
  "(\<not> str_includes_char G CHR '':'' \<and> list_ex (\<lambda>l. startsWith (l_name l) (G @ '':'')) av)
     = spec_is_prefix_group G av"
  by (auto simp: str_includes_char_def startsWith_def spec_is_prefix_group_def list_ex_iff)

lemma source_member_test:
  "list_ex (\<lambda>l. if \<not> str_includes_char G CHR '':'' \<and>
                      list_ex (\<lambda>l. startsWith (l_name l) (G @ '':'')) av
                   then startsWith (l_name l) (G @ '':'') else l_name l = G) (pr_labels pr)
     = spec_group_member G av pr"
  unfolding source_prefix_test
  by (cases "spec_is_prefix_group G av")
     (simp_all add: spec_group_member_def list_ex_iff startsWith_def)

lemma groups_by_spec_member:
  "groups prs gs av =
     map (\<lambda>G. \<lparr>g_label = G,
                g_labelColor = (case find (\<lambda>l. l_name l = G) av of
                                  None \<Rightarrow> ''6b7280''
                                | Some l \<Rightarrow> if l_color l \<noteq> [] then l_color l else ''6b7280''),
                g_pullRequests = filter (spec_group_member G av) prs\<rparr>) gs"
  by (simp add: groups_def Let_def source_member_test)

lemma groups_length: "length (groups prs gs av) = length gs"
  by (simp add: groups_by_spec_member)

lemma group_records:
  "g \<in> set (groups prs gs av) \<Longrightarrow>
     \<exists>G \<in> set gs. g_label g = G \<and> g_pullRequests g = filter (spec_group_member G av) prs"
  by (auto simp: groups_by_spec_member)

lemma groups_nth:
  assumes "i < length gs"
  shows "g_label (groups prs gs av ! i) = gs ! i"
    and "g_pullRequests (groups prs gs av ! i) = filter (spec_group_member (gs ! i) av) prs"
  using assms by (simp_all add: groups_by_spec_member)

lemma ungrouped_spec:
  "ungroupedPRs prs gs av = filter (\<lambda>pr. \<forall>G \<in> set gs. \<not> spec_group_member G av pr) prs"
proof -
  have "list_ex (\<lambda>prLabel. list_ex (\<lambda>selectedLabel.
            if \<not> str_includes_char selectedLabel CHR '':'' \<and>
               list_ex (\<lambda>l. startsWith (l_name l) (selectedLabel @ '':'')) av
            then startsWith (l_name prLabel) (selectedLabel @ '':'')
            else l_name prLabel = selectedLabel) gs) (pr_labels pr)
        = (\<exists>G \<in> set gs. spec_group_member G av pr)" for pr
    unfolding source_prefix_test
    by (auto simp: spec_group_member_def list_ex_iff startsWith_def)
  then show ?thesis
    by (simp add: ungroupedPRs_def Let_def)
qed

text \<open>
  C3. The remainder computed by the second pass is the complement of the groups: it is
  the input list restricted to the records that occur in no group's record subset, so a
  record is in the remainder if and only if it is an input record and no produced group
  contains it.
\<close>

theorem ungrouped_is_complement_of_groups:
  "ungroupedPRs prs gs av =
     filter (\<lambda>pr. \<forall>g \<in> set (groups prs gs av). pr \<notin> set (g_pullRequests g)) prs \<and>
   (pr \<in> set (ungroupedPRs prs gs av) \<longleftrightarrow>
     pr \<in> set prs \<and> (\<forall>g \<in> set (groups prs gs av). pr \<notin> set (g_pullRequests g)))"
proof -
  have members: "(\<forall>g \<in> set (groups prs gs av). p \<notin> set (g_pullRequests g))
      \<longleftrightarrow> (\<forall>G \<in> set gs. \<not> spec_group_member G av p)" if "p \<in> set prs" for p
  proof
    assume none: "\<forall>g \<in> set (groups prs gs av). p \<notin> set (g_pullRequests g)"
    show "\<forall>G \<in> set gs. \<not> spec_group_member G av p"
    proof
      fix G assume "G \<in> set gs"
      then obtain i where i: "i < length gs" "gs ! i = G"
        by (auto simp: in_set_conv_nth)
      then have "groups prs gs av ! i \<in> set (groups prs gs av)"
        by (simp add: groups_length)
      with none have "p \<notin> set (g_pullRequests (groups prs gs av ! i))"
        by blast
      with i that show "\<not> spec_group_member G av p"
        by (simp add: groups_nth)
    qed
  next
    assume none: "\<forall>G \<in> set gs. \<not> spec_group_member G av p"
    show "\<forall>g \<in> set (groups prs gs av). p \<notin> set (g_pullRequests g)"
    proof
      fix g assume "g \<in> set (groups prs gs av)"
      then obtain G where "G \<in> set gs" "g_pullRequests g = filter (spec_group_member G av) prs"
        using group_records by blast
      with none show "p \<notin> set (g_pullRequests g)"
        by simp
    qed
  qed
  have eq: "ungroupedPRs prs gs av =
     filter (\<lambda>pr. \<forall>g \<in> set (groups prs gs av). pr \<notin> set (g_pullRequests g)) prs"
    unfolding ungrouped_spec by (rule filter_cong) (simp_all add: members)
  have "pr \<in> set (ungroupedPRs prs gs av) \<longleftrightarrow>
     pr \<in> set prs \<and> (\<forall>g \<in> set (groups prs gs av). pr \<notin> set (g_pullRequests g))"
    by (subst eq) simp
  with eq show ?thesis
    by (rule conjI)
qed

theorem ungrouped_is_complement_of_groups_witness:
  "length (groups sample_prs [''type'', ''urgent''] sample_available_labels) = 2 \<and>
   sample_pr 4 Open [sample_label 4 ''docs''] \<notin>
     set (g_pullRequests (groups sample_prs [''type'', ''urgent''] sample_available_labels ! 0)) \<and>
   sample_pr 4 Open [sample_label 4 ''docs''] \<notin>
     set (g_pullRequests (groups sample_prs [''type'', ''urgent''] sample_available_labels ! 1)) \<and>
   sample_pr 4 Open [sample_label 4 ''docs''] \<in>
     set (ungroupedPRs sample_prs [''type'', ''urgent''] sample_available_labels) \<and>
   sample_pr 3 Closed [sample_label 3 ''urgent''] \<in>
     set (g_pullRequests (groups sample_prs [''type'', ''urgent''] sample_available_labels ! 1)) \<and>
   sample_pr 3 Closed [sample_label 3 ''urgent''] \<notin>
     set (ungroupedPRs sample_prs [''type'', ''urgent''] sample_available_labels)"
proof -
  have in_prs: "sample_pr 4 Open [sample_label 4 ''docs''] \<in> set sample_prs"
    by (simp add: sample_prs_def)
  have len: "length (groups sample_prs [''type'', ''urgent''] sample_available_labels) = 2"
    by (simp add: groups_def)
  have not0: "sample_pr 4 Open [sample_label 4 ''docs''] \<notin>
     set (g_pullRequests (groups sample_prs [''type'', ''urgent''] sample_available_labels ! 0))"
    and not1: "sample_pr 4 Open [sample_label 4 ''docs''] \<notin>
     set (g_pullRequests (groups sample_prs [''type'', ''urgent''] sample_available_labels ! 1))"
    and in1: "sample_pr 3 Closed [sample_label 3 ''urgent''] \<in>
     set (g_pullRequests (groups sample_prs [''type'', ''urgent''] sample_available_labels ! 1))"
    by (simp_all add: groups_def sample_defs str_includes_char_def startsWith_def)
  have none: "\<forall>g \<in> set (groups sample_prs [''type'', ''urgent''] sample_available_labels).
      sample_pr 4 Open [sample_label 4 ''docs''] \<notin> set (g_pullRequests g)"
    by (simp add: groups_def sample_defs str_includes_char_def startsWith_def)
  have some: "\<not> (\<forall>g \<in> set (groups sample_prs [''type'', ''urgent''] sample_available_labels).
      sample_pr 3 Closed [sample_label 3 ''urgent''] \<notin> set (g_pullRequests g))"
    by (simp add: groups_def sample_defs str_includes_char_def startsWith_def)
  from in_prs none some len not0 not1 in1
    ungrouped_is_complement_of_groups
      [of sample_prs "[''type'', ''urgent'']" sample_available_labels
          "sample_pr 4 Open [sample_label 4 ''docs'']"]
    ungrouped_is_complement_of_groups
      [of sample_prs "[''type'', ''urgent'']" sample_available_labels
          "sample_pr 3 Closed [sample_label 3 ''urgent'']"]
  show ?thesis by blast
qed

text \<open>
  C4. Groups come in the order of the selection, one per selected label \<open>G\<close>. \<open>G\<close> is
  a prefix group exactly when it has no colon and some available label's name starts
  with \<open>G:\<close>; an input record is then in the group iff one of its labels starts with
  \<open>G:\<close>, and otherwise iff one of its labels is named exactly \<open>G\<close>.
\<close>

theorem groups_membership_rule:
  "map g_label (groups prs gs av) = gs \<and>
   (\<forall>i < length gs. \<forall>pr \<in> set prs.
      (spec_is_prefix_group (gs ! i) av \<longrightarrow>
         (pr \<in> set (g_pullRequests (groups prs gs av ! i)) \<longleftrightarrow>
          (\<exists>l \<in> set (pr_labels pr). prefix ((gs ! i) @ '':'') (l_name l)))) \<and>
      (\<not> spec_is_prefix_group (gs ! i) av \<longrightarrow>
         (pr \<in> set (g_pullRequests (groups prs gs av ! i)) \<longleftrightarrow>
          (\<exists>l \<in> set (pr_labels pr). l_name l = gs ! i))))"
proof -
  have "map g_label (groups prs gs av) = gs"
    by (simp add: groups_by_spec_member comp_def)
  moreover have "\<forall>i < length gs. \<forall>pr \<in> set prs.
      (spec_is_prefix_group (gs ! i) av \<longrightarrow>
         (pr \<in> set (g_pullRequests (groups prs gs av ! i)) \<longleftrightarrow>
          (\<exists>l \<in> set (pr_labels pr). prefix ((gs ! i) @ '':'') (l_name l)))) \<and>
      (\<not> spec_is_prefix_group (gs ! i) av \<longrightarrow>
         (pr \<in> set (g_pullRequests (groups prs gs av ! i)) \<longleftrightarrow>
          (\<exists>l \<in> set (pr_labels pr). l_name l = gs ! i)))"
    by (simp add: groups_nth spec_group_member_def)
  ultimately show ?thesis by blast
qed

theorem groups_membership_rule_witness:
  "spec_is_prefix_group ''type'' sample_available_labels \<and>
   \<not> spec_is_prefix_group ''urgent'' sample_available_labels \<and>
   sample_pr 1 Open [sample_label 1 ''type:bug''] \<in>
     set (g_pullRequests (groups sample_prs [''type'', ''urgent''] sample_available_labels ! 0)) \<and>
   sample_pr 2 Open [sample_label 2 ''type:feature''] \<in>
     set (g_pullRequests (groups sample_prs [''type'', ''urgent''] sample_available_labels ! 0)) \<and>
   sample_pr 3 Closed [sample_label 3 ''urgent''] \<notin>
     set (g_pullRequests (groups sample_prs [''type'', ''urgent''] sample_available_labels ! 0)) \<and>
   sample_pr 3 Closed [sample_label 3 ''urgent''] \<in>
     set (g_pullRequests (groups sample_prs [''type'', ''urgent''] sample_available_labels ! 1)) \<and>
   sample_pr 1 Open [sample_label 1 ''type:bug''] \<notin>
     set (g_pullRequests (groups sample_prs [''type'', ''urgent''] sample_available_labels ! 1))"
proof -
  have pre: "spec_is_prefix_group ''type'' sample_available_labels"
    and exact: "\<not> spec_is_prefix_group ''urgent'' sample_available_labels"
    by (simp_all add: spec_is_prefix_group_def sample_available_labels_def sample_label_def)
  have mem: "sample_pr 1 Open [sample_label 1 ''type:bug''] \<in> set sample_prs"
    "sample_pr 2 Open [sample_label 2 ''type:feature''] \<in> set sample_prs"
    "sample_pr 3 Closed [sample_label 3 ''urgent''] \<in> set sample_prs"
    by (simp_all add: sample_prs_def)
  note rule = groups_membership_rule
      [of sample_prs "[''type'', ''urgent'']" sample_available_labels, THEN conjunct2, rule_format]
  have "sample_pr 1 Open [sample_label 1 ''type:bug''] \<in>
     set (g_pullRequests (groups sample_prs [''type'', ''urgent''] sample_available_labels ! 0))"
    using rule [of 0, OF _ mem(1)] pre by (simp add: sample_pr_def sample_label_def)
  moreover have "sample_pr 2 Open [sample_label 2 ''type:feature''] \<in>
     set (g_pullRequests (groups sample_prs [''type'', ''urgent''] sample_available_labels ! 0))"
    using rule [of 0, OF _ mem(2)] pre by (simp add: sample_pr_def sample_label_def)
  moreover have "sample_pr 3 Closed [sample_label 3 ''urgent''] \<notin>
     set (g_pullRequests (groups sample_prs [''type'', ''urgent''] sample_available_labels ! 0))"
    using rule [of 0, OF _ mem(3)] pre by (simp add: sample_pr_def sample_label_def)
  moreover have "sample_pr 3 Closed [sample_label 3 ''urgent''] \<in>
     set (g_pullRequests (groups sample_prs [''type'', ''urgent''] sample_available_labels ! 1))"
    using rule [of 1, OF _ mem(3)] exact by (simp add: sample_pr_def sample_label_def)
  moreover have "sample_pr 1 Open [sample_label 1 ''type:bug''] \<notin>
     set (g_pullRequests (groups sample_prs [''type'', ''urgent''] sample_available_labels ! 1))"
    using rule [of 1, OF _ mem(1)] exact by (simp add: sample_pr_def sample_label_def)
  ultimately show ?thesis
    using pre exact by blast
qed

subsection \<open>Filter engine\<close>

lemma absent_or_empty_list:
  "x = None \<or> x = Some [] \<Longrightarrow>
     (case x of None \<Rightarrow> False | Some xs \<Rightarrow> 0 < length xs \<and> P xs) = False"
  by auto

lemma absent_or_empty_query:
  "q = None \<or> q = Some [] \<Longrightarrow>
     (case q of None \<Rightarrow> False | Some s \<Rightarrow> s \<noteq> [] \<and> P s) = False"
  by auto

text \<open>
  C5. With every criteria field empty or absent (no or empty lists, no or empty search
  string, no date bounds) the filter returns its input list unchanged.
\<close>

theorem empty_filters_identity:
  assumes "f_states f = None \<or> f_states f = Some []"
    and "f_repositories f = None \<or> f_repositories f = Some []"
    and "f_labels f = None \<or> f_labels f = Some []"
    and "f_assignees f = None \<or> f_assignees f = Some []"
    and "f_authors f = None \<or> f_authors f = Some []"
    and "f_reviewers f = None \<or> f_reviewers f = Some []"
    and "f_searchQuery f = None \<or> f_searchQuery f = Some []"
    and "f_dateFrom f = None" and "f_dateTo f = None"
  shows "filteredPullRequests prs f = prs"
proof -
  have "matchesFilters f pr" for pr
    unfolding matchesFilters_def
    by (simp only: absent_or_empty_list [OF assms(1)] absent_or_empty_list [OF assms(2)]
          absent_or_empty_list [OF assms(3)] absent_or_empty_list [OF assms(4)]
          absent_or_empty_list [OF assms(5)] absent_or_empty_list [OF assms(6)]
          absent_or_empty_query [OF assms(7)] assms(8) assms(9) option.case if_False)
  then show ?thesis
    by (simp add: filteredPullRequests_def)
qed

theorem empty_filters_identity_witness:
  "filteredPullRequests sample_prs no_filters = sample_prs \<and>
   filteredPullRequests sample_prs
     (no_filters\<lparr>f_states := Some [], f_labels := Some [], f_searchQuery := Some []\<rparr>) = sample_prs"
  using empty_filters_identity [of no_filters sample_prs]
        empty_filters_identity
          [of "no_filters\<lparr>f_states := Some [], f_labels := Some [], f_searchQuery := Some []\<rparr>"
              sample_prs]
  by (simp add: no_filters_def)

subsection \<open>Label aggregation\<close>

lemma labelMap_of_concat:
  "labelMap_of results = fold labelMap_step (concat (map le_labels results)) []"
proof -
  have "fold (\<lambda>result labelMap. fold labelMap_step (le_labels result) labelMap) results m
        = fold labelMap_step (concat (map le_labels results)) m" for m
    by (induction results arbitrary: m) simp_all
  then show ?thesis
    by (simp add: labelMap_of_def)
qed

lemma labelMap_has_iff: "labelMap_has m k \<longleftrightarrow> k \<in> fst ` set m"
  by (simp add: labelMap_has_def map_of_eq_None_iff)

lemma keyed_has_iff:
  "keyed_by_name m \<Longrightarrow> labelMap_has m n \<longleftrightarrow> (\<exists>v \<in> snd ` set m. l_name v = n)"
  by (force simp: labelMap_has_iff keyed_by_name_def)

lemma keyed_step: "keyed_by_name m \<Longrightarrow> keyed_by_name (labelMap_step l m)"
  by (auto simp: keyed_by_name_def labelMap_step_def Let_def transformLabel_def)

lemma filter_absent:
  "keyed_by_name m \<Longrightarrow> \<not> labelMap_has m n \<Longrightarrow> filter (\<lambda>l. l_name l = n) (map snd m) = []"
  by (auto simp: keyed_has_iff filter_empty_conv)

lemma name_transformLabel: "l_name (transformLabel l) = gl_name l"
  by (simp add: transformLabel_def)

lemma fold_step_first_wins:
  assumes "keyed_by_name m"
  shows "filter (\<lambda>l. l_name l = n) (map snd (fold labelMap_step ls m)) =
           (if labelMap_has m n then filter (\<lambda>l. l_name l = n) (map snd m)
            else (case find (\<lambda>l. gl_name l = n) ls of
                    None \<Rightarrow> []
                  | Some l \<Rightarrow> [transformLabel l]))"
  using assms
proof (induction ls arbitrary: m)
  case Nil
  then show ?case by (simp add: filter_absent)
next
  case (Cons l ls)
  have keyed': "keyed_by_name (labelMap_step l m)"
    using Cons.prems by (rule keyed_step)
  note IH = Cons.IH [OF keyed']
  show ?case
  proof (cases "labelMap_has m (gl_name l)")
    case True
    then have step: "labelMap_step l m = m"
      by (simp add: labelMap_step_def Let_def name_transformLabel)
    from True have "gl_name l = n \<Longrightarrow> labelMap_has m n" by simp
    with IH step show ?thesis by auto
  next
    case False
    then have step: "labelMap_step l m = m @ [(gl_name l, transformLabel l)]"
      by (simp add: labelMap_step_def Let_def name_transformLabel)
    show ?thesis
    proof (cases "labelMap_has m n")
      case True
      with False have "gl_name l \<noteq> n" by auto
      with True IH step show ?thesis
        by (simp add: labelMap_has_iff name_transformLabel)
    next
      case absent: False
      show ?thesis
      proof (cases "gl_name l = n")
        case True
        with absent IH step Cons.prems show ?thesis
          by (simp add: labelMap_has_iff name_transformLabel filter_absent)
      next
        case False
        with absent IH step show ?thesis
          by (simp add: labelMap_has_iff)
      qed
    qed
  qed
qed

text \<open>
  C6. The aggregated label list is keyed by name and the first occurrence wins: for every
  name, the aggregate holds exactly one entry of that name when some repository result
  has a label of that name, and none otherwise; the entry carries the id, colour and
  description of the first such label in iteration order over the repository results.
\<close>

theorem uniqueLabels_first_wins:
  "filter (\<lambda>l. l_name l = n) (uniqueLabels results) =
     (case find (\<lambda>l. gl_name l = n) (concat (map le_labels results)) of
        None \<Rightarrow> []
      | Some l \<Rightarrow> [\<lparr>l_id = gl_id l, l_name = n, l_color = gl_color l,
                     l_description = gl_description l\<rparr>])"
proof -
  have empty: "keyed_by_name []" "\<not> labelMap_has [] n"
    by (simp_all add: keyed_by_name_def labelMap_has_def)
  have "filter (\<lambda>l. l_name l = n) (uniqueLabels results) =
     (case find (\<lambda>l. gl_name l = n) (concat (map le_labels results)) of
        None \<Rightarrow> [] | Some l \<Rightarrow> [transformLabel l])"
    unfolding uniqueLabels_def labelMap_of_concat
    using fold_step_first_wins [OF empty(1)] empty(2) by simp
  then show ?thesis
    by (auto simp: transformLabel_def split: option.splits dest: find_Some_iff [THEN iffD1])
qed

theorem uniqueLabels_first_wins_witness:
  "filter (\<lambda>l. l_name l = ''bug'') (uniqueLabels two_repo_labels) =
     [\<lparr>l_id = 1, l_name = ''bug'', l_color = ''ff0000'', l_description = None\<rparr>]"
  using uniqueLabels_first_wins [of "''bug''" two_repo_labels]
  by (simp add: two_repo_labels_def sample_gh_label_def)

subsection \<open>Multi-repository fan-out\<close>

text \<open>
  The result of a fan-out, by index: the entries of the calls that succeeded, taken over
  the indices \<open>0, ..., n - 1\<close> of the refs in increasing order.
\<close>

lemmas fanout_sample_defs =
  getPullRequestsForRepositories_def getLabelsForRepositories_def allSettled_def
  pullRequestPromises_def labelPromises_def pullRequestPromise_def labelPromise_def
  three_refs_def second_rejects_pulls_def second_rejects_labels_def unsorted_refs_def
  all_succeed_pulls_def enumerate_eq_zip

lemma map_enumerate_nth:
  "map (\<lambda>(i, r). f i r) (enumerate 0 xs) = map (\<lambda>i. f i (xs ! i)) [0..<length xs]"
  by (rule nth_equalityI) (simp_all add: nth_enumerate_eq)

lemma fulfilled_values:
  "map settled_value (filter (\<lambda>result. status result = ''fulfilled'') (map settle ps))
     = map projr (filter (\<lambda>p. \<not> isl p) ps)"
proof (induction ps)
  case Nil
  then show ?case by simp
next
  case (Cons p ps)
  then show ?case by (cases p) simp_all
qed

lemma fulfilled_by_index:
  "map settled_value (filter (\<lambda>result. status result = ''fulfilled'')
        (map settle (map (\<lambda>(i, r). f i r) (enumerate 0 refs))))
     = map (\<lambda>i. projr (f i (refs ! i))) (filter (\<lambda>i. \<not> isl (f i (refs ! i))) [0..<length refs])"
  unfolding fulfilled_values map_enumerate_nth
  by (simp add: filter_map comp_def)

lemma pulls_fanout_by_index:
  "getPullRequestsForRepositories getPRs refs =
     Inr (map (\<lambda>i. projr (pullRequestPromise getPRs i (refs ! i)))
            (filter (\<lambda>i. \<not> isl (pullRequestPromise getPRs i (refs ! i))) [0..<length refs]))"
  unfolding getPullRequestsForRepositories_def allSettled_def pullRequestPromises_def
  by (simp only: sum.case fulfilled_by_index)

lemma labels_fanout_by_index:
  "getLabelsForRepositories getLabels refs =
     Inr (map (\<lambda>i. projr (labelPromise getLabels i (refs ! i)))
            (filter (\<lambda>i. \<not> isl (labelPromise getLabels i (refs ! i))) [0..<length refs]))"
  unfolding getLabelsForRepositories_def allSettled_def labelPromises_def
  by (simp only: sum.case fulfilled_by_index)

lemma pullRequestPromise_ok:
  "\<not> isl (pullRequestPromise getPRs i r) \<longleftrightarrow> (\<exists>v. getPRs i (owner r) (repo r) = Inr v)"
  by (cases "getPRs i (owner r) (repo r)") (simp_all add: pullRequestPromise_def)

lemma pullRequestPromise_value:
  "getPRs i (owner r) (repo r) = Inr v \<Longrightarrow>
     projr (pullRequestPromise getPRs i r) =
       \<lparr>pe_repository = tmpl (owner r) @ ''/'' @ tmpl (repo r), pe_pullRequests = v\<rparr>"
  by (simp add: pullRequestPromise_def)

lemma labelPromise_ok:
  "\<not> isl (labelPromise getLabels i r) \<longleftrightarrow> (\<exists>v. getLabels i (owner r) (repo r) = Inr v)"
  by (cases "getLabels i (owner r) (repo r)") (simp_all add: labelPromise_def)

lemma labelPromise_value:
  "getLabels i (owner r) (repo r) = Inr v \<Longrightarrow>
     projr (labelPromise getLabels i r) =
       \<lparr>le_repository = tmpl (owner r) @ ''/'' @ tmpl (repo r), le_labels = v\<rparr>"
  by (simp add: labelPromise_def)

lemma length_filter_upt: "length (filter P [0..<n]) = card {i. i < n \<and> P i}"
proof -
  have "distinct (filter P [0..<n])" by simp
  then have "length (filter P [0..<n]) = card (set (filter P [0..<n]))"
    by (rule distinct_card [symmetric])
  also have "set (filter P [0..<n]) = {i. i < n \<and> P i}" by auto
  finally show ?thesis .
qed

text \<open>What the successful calls of a batch contribute, for any way of building an entry.\<close>

lemma successes_spec:
  fixes call :: "nat \<Rightarrow> error + 'v" and mk :: "nat \<Rightarrow> 'v \<Rightarrow> 'e"
  assumes ok: "\<And>i. \<not> isl (p i) \<longleftrightarrow> (\<exists>v. call i = Inr v)"
    and val: "\<And>i v. call i = Inr v \<Longrightarrow> projr (p i) = mk i v"
    and rs_def: "rs = map (\<lambda>i. projr (p i)) (filter (\<lambda>i. \<not> isl (p i)) [0..<n])"
  shows "length rs = card {i. i < n \<and> (\<exists>v. call i = Inr v)}"
    and "\<forall>i < n. \<forall>v. call i = Inr v \<longrightarrow> mk i v \<in> set rs"
    and "\<forall>x \<in> set rs. \<exists>i < n. \<exists>v. call i = Inr v \<and> x = mk i v"
proof -
  show "length rs = card {i. i < n \<and> (\<exists>v. call i = Inr v)}"
    by (simp add: rs_def length_filter_upt ok)
  show "\<forall>i < n. \<forall>v. call i = Inr v \<longrightarrow> mk i v \<in> set rs"
  proof (intro allI impI)
    fix i v assume "i < n" and c: "call i = Inr v"
    then have "i \<in> set (filter (\<lambda>i. \<not> isl (p i)) [0..<n])"
      by (auto simp: ok)
    then have "projr (p i) \<in> set rs"
      unfolding rs_def by (simp del: set_filter)
    with c show "mk i v \<in> set rs"
      by (simp add: val)
  qed
  show "\<forall>x \<in> set rs. \<exists>i < n. \<exists>v. call i = Inr v \<and> x = mk i v"
  proof
    fix x assume "x \<in> set rs"
    then obtain i where i: "i < n" "\<not> isl (p i)" and x: "x = projr (p i)"
      by (auto simp: rs_def)
    from i(2) obtain v where "call i = Inr v"
      by (auto simp: ok)
    with x i(1) show "\<exists>i < n. \<exists>v. call i = Inr v \<and> x = mk i v"
      by (auto simp: val)
  qed
qed

text \<open>
  C2. For every list of refs and every way the per-repository calls settle, the fan-out
  for pull requests and the fan-out for labels return normally (never an error); the
  result has as many entries as there are successful calls; every successful call's
  data is in the result, paired with its ref's \<open>owner/name\<close> string; and every entry of
  the result comes from a successful call, so a failed ref contributes nothing.
\<close>

theorem fanout_drops_only_failures:
  "(\<exists>rs. getPullRequestsForRepositories getPRs refs = Inr rs \<and>
      length rs = card {i. i < length refs \<and>
                         (\<exists>v. getPRs i (owner (refs ! i)) (repo (refs ! i)) = Inr v)} \<and>
      (\<forall>i < length refs. \<forall>v. getPRs i (owner (refs ! i)) (repo (refs ! i)) = Inr v \<longrightarrow>
         \<lparr>pe_repository = tmpl (owner (refs ! i)) @ ''/'' @ tmpl (repo (refs ! i)),
          pe_pullRequests = v\<rparr> \<in> set rs) \<and>
      (\<forall>x \<in> set rs. \<exists>i < length refs. \<exists>v.
         getPRs i (owner (refs ! i)) (repo (refs ! i)) = Inr v \<and>
         x = \<lparr>pe_repository = tmpl (owner (refs ! i)) @ ''/'' @ tmpl (repo (refs ! i)),
              pe_pullRequests = v\<rparr>)) \<and>
   (\<exists>ls. getLabelsForRepositories getLabels refs = Inr ls \<and>
      length ls = card {i. i < length refs \<and>
                         (\<exists>v. getLabels i (owner (refs ! i)) (repo (refs ! i)) = Inr v)} \<and>
      (\<forall>i < length refs. \<forall>v. getLabels i (owner (refs ! i)) (repo (refs ! i)) = Inr v \<longrightarrow>
         \<lparr>le_repository = tmpl (owner (refs ! i)) @ ''/'' @ tmpl (repo (refs ! i)),
          le_labels = v\<rparr> \<in> set ls) \<and>
      (\<forall>x \<in> set ls. \<exists>i < length refs. \<exists>v.
         getLabels i (owner (refs ! i)) (repo (refs ! i)) = Inr v \<and>
         x = \<lparr>le_repository = tmpl (owner (refs ! i)) @ ''/'' @ tmpl (repo (refs ! i)),
              le_labels = v\<rparr>))"
proof (rule conjI)
  note spec = successes_spec
    [where p = "\<lambda>i. pullRequestPromise getPRs i (refs ! i)"
       and call = "\<lambda>i. getPRs i (owner (refs ! i)) (repo (refs ! i))"
       and mk = "\<lambda>i v. \<lparr>pe_repository = tmpl (owner (refs ! i)) @ ''/'' @ tmpl (repo (refs ! i)),
                        pe_pullRequests = v\<rparr>"
       and n = "length refs",
     OF pullRequestPromise_ok pullRequestPromise_value refl]
  from pulls_fanout_by_index [of getPRs refs] spec
  show "\<exists>rs. getPullRequestsForRepositories getPRs refs = Inr rs \<and>
      length rs = card {i. i < length refs \<and>
                         (\<exists>v. getPRs i (owner (refs ! i)) (repo (refs ! i)) = Inr v)} \<and>
      (\<forall>i < length refs. \<forall>v. getPRs i (owner (refs ! i)) (repo (refs ! i)) = Inr v \<longrightarrow>
         \<lparr>pe_repository = tmpl (owner (refs ! i)) @ ''/'' @ tmpl (repo (refs ! i)),
          pe_pullRequests = v\<rparr> \<in> set rs) \<and>
      (\<forall>x \<in> set rs. \<exists>i < length refs. \<exists>v.
         getPRs i (owner (refs ! i)) (repo (refs ! i)) = Inr v \<and>
         x = \<lparr>pe_repository = tmpl (owner (refs ! i)) @ ''/'' @ tmpl (repo (refs ! i)),
              pe_pullRequests = v\<rparr>)"
    by blast
next
  note spec = successes_spec
    [where p = "\<lambda>i. labelPromise getLabels i (refs ! i)"
       and call = "\<lambda>i. getLabels i (owner (refs ! i)) (repo (refs ! i))"
       and mk = "\<lambda>i v. \<lparr>le_repository = tmpl (owner (refs ! i)) @ ''/'' @ tmpl (repo (refs ! i)),
                        le_labels = v\<rparr>"
       and n = "length refs",
     OF labelPromise_ok labelPromise_value refl]
  from labels_fanout_by_index [of getLabels refs] spec
  show "\<exists>ls. getLabelsForRepositories getLabels refs = Inr ls \<and>
      length ls = card {i. i < length refs \<and>
                         (\<exists>v. getLabels i (owner (refs ! i)) (repo (refs ! i)) = Inr v)} \<and>
      (\<forall>i < length refs. \<forall>v. getLabels i (owner (refs ! i)) (repo (refs ! i)) = Inr v \<longrightarrow>
         \<lparr>le_repository = tmpl (owner (refs ! i)) @ ''/'' @ tmpl (repo (refs ! i)),
          le_labels = v\<rparr> \<in> set ls) \<and>
      (\<forall>x \<in> set ls. \<exists>i < length refs. \<exists>v.
         getLabels i (owner (refs ! i)) (repo (refs ! i)) = Inr v \<and>
         x = \<lparr>le_repository = tmpl (owner (refs ! i)) @ ''/'' @ tmpl (repo (refs ! i)),
              le_labels = v\<rparr>)"
    by blast
qed

theorem fanout_drops_only_failures_witness:
  "getPullRequestsForRepositories second_rejects_pulls three_refs =
     Inr [\<lparr>pe_repository = ''acme/web'', pe_pullRequests = []\<rparr>,
          \<lparr>pe_repository = ''acme/docs'', pe_pullRequests = []\<rparr>] \<and>
   getLabelsForRepositories second_rejects_labels three_refs =
     Inr [\<lparr>le_repository = ''acme/web'', le_labels = []\<rparr>,
          \<lparr>le_repository = ''acme/docs'', le_labels = []\<rparr>]"
proof -
  have pulls: "getPullRequestsForRepositories second_rejects_pulls three_refs =
     Inr [\<lparr>pe_repository = ''acme/web'', pe_pullRequests = []\<rparr>,
          \<lparr>pe_repository = ''acme/docs'', pe_pullRequests = []\<rparr>]"
    by (simp add: fanout_sample_defs upt_rec)
  have labels: "getLabelsForRepositories second_rejects_labels three_refs =
     Inr [\<lparr>le_repository = ''acme/web'', le_labels = []\<rparr>,
          \<lparr>le_repository = ''acme/docs'', le_labels = []\<rparr>]"
    by (simp add: fanout_sample_defs upt_rec)
  from fanout_drops_only_failures [of second_rejects_pulls three_refs second_rejects_labels]
    pulls labels
  show ?thesis by blast
qed

lemma successes_in_order:
  fixes call :: "nat \<Rightarrow> error + 'v" and mk :: "nat \<Rightarrow> 'v \<Rightarrow> 'e"
  assumes ok: "\<And>i. \<not> isl (p i) \<longleftrightarrow> (\<exists>v. call i = Inr v)"
    and val: "\<And>i v. call i = Inr v \<Longrightarrow> projr (p i) = mk i v"
    and rs_def: "rs = map (\<lambda>i. projr (p i)) (filter (\<lambda>i. \<not> isl (p i)) [0..<n])"
  shows "\<exists>idx. sorted_wrt (<) idx \<and> length idx = length rs \<and>
           set idx = {i. i < n \<and> (\<exists>v. call i = Inr v)} \<and>
           (\<forall>k < length rs. \<exists>v. call (idx ! k) = Inr v \<and> rs ! k = mk (idx ! k) v)"
proof -
  let ?idx = "filter (\<lambda>i. \<not> isl (p i)) [0..<n]"
  have "sorted_wrt (<) ?idx"
    by (rule sorted_wrt_filter) (rule sorted_wrt_upt)
  moreover have "length ?idx = length rs"
    by (simp add: rs_def)
  moreover have "set ?idx = {i. i < n \<and> (\<exists>v. call i = Inr v)}"
    by (auto simp: ok)
  moreover have "\<forall>k < length rs. \<exists>v. call (?idx ! k) = Inr v \<and> rs ! k = mk (?idx ! k) v"
  proof (intro allI impI)
    fix k assume k: "k < length rs"
    then have "k < length ?idx"
      by (simp add: rs_def)
    then have "?idx ! k \<in> set ?idx"
      by (rule nth_mem)
    then have "\<not> isl (p (?idx ! k))"
      by simp
    then obtain v where v: "call (?idx ! k) = Inr v"
      by (auto simp: ok)
    from k have "rs ! k = projr (p (?idx ! k))"
      by (simp add: rs_def)
    with v show "\<exists>v. call (?idx ! k) = Inr v \<and> rs ! k = mk (?idx ! k) v"
      by (auto simp: val)
  qed
  ultimately show ?thesis by blast
qed

text \<open>
  C10. The results of a fan-out keep the order of the refs: there is a strictly
  increasing list of input positions, exactly the positions whose call succeeded, such
  that the \<open>k\<close>-th result is the entry of the call at the \<open>k\<close>-th of these positions. So
  the output order is fixed by which refs succeed.
\<close>

theorem fanout_keeps_input_order:
  "(\<exists>rs idx. getPullRequestsForRepositories getPRs refs = Inr rs \<and>
      sorted_wrt (<) idx \<and> length idx = length rs \<and>
      set idx = {i. i < length refs \<and>
                    (\<exists>v. getPRs i (owner (refs ! i)) (repo (refs ! i)) = Inr v)} \<and>
      (\<forall>k < length rs. \<exists>v.
         getPRs (idx ! k) (owner (refs ! (idx ! k))) (repo (refs ! (idx ! k))) = Inr v \<and>
         rs ! k = \<lparr>pe_repository =
                      tmpl (owner (refs ! (idx ! k))) @ ''/'' @ tmpl (repo (refs ! (idx ! k))),
                   pe_pullRequests = v\<rparr>)) \<and>
   (\<exists>ls idx. getLabelsForRepositories getLabels refs = Inr ls \<and>
      sorted_wrt (<) idx \<and> length idx = length ls \<and>
      set idx = {i. i < length refs \<and>
                    (\<exists>v. getLabels i (owner (refs ! i)) (repo (refs ! i)) = Inr v)} \<and>
      (\<forall>k < length ls. \<exists>v.
         getLabels (idx ! k) (owner (refs ! (idx ! k))) (repo (refs ! (idx ! k))) = Inr v \<and>
         ls ! k = \<lparr>le_repository =
                      tmpl (owner (refs ! (idx ! k))) @ ''/'' @ tmpl (repo (refs ! (idx ! k))),
                   le_labels = v\<rparr>))"
proof (rule conjI)
  note ordered = successes_in_order
    [where p = "\<lambda>i. pullRequestPromise getPRs i (refs ! i)"
       and call = "\<lambda>i. getPRs i (owner (refs ! i)) (repo (refs ! i))"
       and mk = "\<lambda>i v. \<lparr>pe_repository = tmpl (owner (refs ! i)) @ ''/'' @ tmpl (repo (refs ! i)),
                        pe_pullRequests = v\<rparr>"
       and n = "length refs",
     OF pullRequestPromise_ok pullRequestPromise_value refl]
  from pulls_fanout_by_index [of getPRs refs] ordered
  show "\<exists>rs idx. getPullRequestsForRepositories getPRs refs = Inr rs \<and>
      sorted_wrt (<) idx \<and> length idx = length rs \<and>
      set idx = {i. i < length refs \<and>
                    (\<exists>v. getPRs i (owner (refs ! i)) (repo (refs ! i)) = Inr v)} \<and>
      (\<forall>k < length rs. \<exists>v.
         getPRs (idx ! k) (owner (refs ! (idx ! k))) (repo (refs ! (idx ! k))) = Inr v \<and>
         rs ! k = \<lparr>pe_repository =
                      tmpl (owner (refs ! (idx ! k))) @ ''/'' @ tmpl (repo (refs ! (idx ! k))),
                   pe_pullRequests = v\<rparr>)"
    by blast
next
  note ordered = successes_in_order
    [where p = "\<lambda>i. labelPromise getLabels i (refs ! i)"
       and call = "\<lambda>i. getLabels i (owner (refs ! i)) (repo (refs ! i))"
       and mk = "\<lambda>i v. \<lparr>le_repository = tmpl (owner (refs ! i)) @ ''/'' @ tmpl (repo (refs ! i)),
                        le_labels = v\<rparr>"
       and n = "length refs",
     OF labelPromise_ok labelPromise_value refl]
  from labels_fanout_by_index [of getLabels refs] ordered
  show "\<exists>ls idx. getLabelsForRepositories getLabels refs = Inr ls \<and>
      sorted_wrt (<) idx \<and> length idx = length ls \<and>
      set idx = {i. i < length refs \<and>
                    (\<exists>v. getLabels i (owner (refs ! i)) (repo (refs ! i)) = Inr v)} \<and>
      (\<forall>k < length ls. \<exists>v.
         getLabels (idx ! k) (owner (refs ! (idx ! k))) (repo (refs ! (idx ! k))) = Inr v \<and>
         ls ! k = \<lparr>le_repository =
                      tmpl (owner (refs ! (idx ! k))) @ ''/'' @ tmpl (repo (refs ! (idx ! k))),
                   le_labels = v\<rparr>)"
    by blast
qed

theorem fanout_keeps_input_order_witness:
  "getPullRequestsForRepositories all_succeed_pulls unsorted_refs =
     Inr [\<lparr>pe_repository = ''zeta/z'', pe_pullRequests = []\<rparr>,
          \<lparr>pe_repository = ''acme/a'', pe_pullRequests = []\<rparr>,
          \<lparr>pe_repository = ''mid/m'', pe_pullRequests = []\<rparr>] \<and>
   getLabelsForRepositories second_rejects_labels unsorted_refs =
     Inr [\<lparr>le_repository = ''zeta/z'', le_labels = []\<rparr>,
          \<lparr>le_repository = ''mid/m'', le_labels = []\<rparr>]"
proof -
  have pulls: "getPullRequestsForRepositories all_succeed_pulls unsorted_refs =
     Inr [\<lparr>pe_repository = ''zeta/z'', pe_pullRequests = []\<rparr>,
          \<lparr>pe_repository = ''acme/a'', pe_pullRequests = []\<rparr>,
          \<lparr>pe_repository = ''mid/m'', pe_pullRequests = []\<rparr>]"
    by (simp add: fanout_sample_defs upt_rec)
  have labels: "getLabelsForRepositories second_rejects_labels unsorted_refs =
     Inr [\<lparr>le_repository = ''zeta/z'', le_labels = []\<rparr>,
          \<lparr>le_repository = ''mid/m'', le_labels = []\<rparr>]"
    by (simp add: fanout_sample_defs upt_rec)
  from fanout_keeps_input_order [of all_succeed_pulls unsorted_refs second_rejects_labels]
    pulls labels
  show ?thesis by blast
qed

subsection \<open>Repository list of the routes\<close>

lemma split_not_Nil: "split c s \<noteq> []"
  by (induction s) (auto split: list.splits)

lemma length_split: "length (split c s) = Suc (count_list s c)"
proof (induction s)
  case Nil
  then show ?case by simp
next
  case (Cons x xs)
  then show ?case
    using split_not_Nil [of c xs] by (cases "split c xs") auto
qed

lemma split_without_separator: "c \<notin> set s \<Longrightarrow> split c s = [s]"
  by (induction s) auto

lemma split_at_separator:
  "c \<in> set s \<Longrightarrow>
     split c s = takeWhile (\<lambda>x. x \<noteq> c) s # split c (tl (dropWhile (\<lambda>x. x \<noteq> c) s))"
  by (induction s) auto

lemma takeWhile_without_separator: "c \<notin> set s \<Longrightarrow> takeWhile (\<lambda>x. x \<noteq> c) s = s"
  by (induction s) auto

lemma hd_split: "hd (split c s) = takeWhile (\<lambda>x. x \<noteq> c) s"
proof (cases "c \<in> set s")
  case True
  then show ?thesis by (simp add: split_at_separator)
next
  case False
  then show ?thesis
    by (simp add: split_without_separator takeWhile_without_separator)
qed

text \<open>The ref built from one entry, by the pieces of the trimmed entry.\<close>

lemma ref_of_entry:
  "(case split CHR ''/'' e of
      [] \<Rightarrow> \<lparr>owner = None, repo = None\<rparr>
    | [a] \<Rightarrow> \<lparr>owner = Some a, repo = None\<rparr>
    | a # b # _ \<Rightarrow> \<lparr>owner = Some a, repo = Some b\<rparr>)
   = \<lparr>owner = Some (takeWhile (\<lambda>c. c \<noteq> CHR ''/'') e),
      repo = (if CHR ''/'' \<in> set e
              then Some (takeWhile (\<lambda>c. c \<noteq> CHR ''/'') (tl (dropWhile (\<lambda>c. c \<noteq> CHR ''/'') e)))
              else None)\<rparr>"
proof (cases "CHR ''/'' \<in> set e")
  case False
  then show ?thesis
    by (simp add: split_without_separator takeWhile_without_separator)
next
  case True
  let ?rest = "tl (dropWhile (\<lambda>c. c \<noteq> CHR ''/'') e)"
  obtain b bs where rest: "split CHR ''/'' ?rest = b # bs"
    using split_not_Nil [of "CHR ''/''" ?rest] by (cases "split CHR ''/'' ?rest") auto
  with hd_split [of "CHR ''/''" ?rest] have "b = takeWhile (\<lambda>c. c \<noteq> CHR ''/'') ?rest"
    by simp
  with True rest show ?thesis
    by (simp add: split_at_separator)
qed

lemma sample_repoList:
  "repoList ''acme/web,oops'' =
     [\<lparr>owner = Some ''acme'', repo = Some ''web''\<rparr>, \<lparr>owner = Some ''oops'', repo = None\<rparr>]"
  by (simp add: repoList_def trim_def is_ws_def)

text \<open>
  C9, as the source has it. Every comma-separated entry, malformed or not, becomes
  exactly one ref of the dispatched list, so the list has one more ref than the string
  has commas, and the fan-out builds one per-repository call for each ref. The owner of a
  ref is the trimmed entry up to its first slash (possibly empty); its name is the piece
  between the first and the second slash, and \<open>undefined\<close> when the entry has no slash.
\<close>

theorem repoList_keeps_every_entry:
  "length (repoList s) = Suc (count_list s CHR '','') \<and>
   length (pullRequestPromises getPRs (repoList s)) = length (repoList s) \<and>
   length (labelPromises getLabels (repoList s)) = length (repoList s) \<and>
   (\<forall>i < length (repoList s).
      let e = trim (split CHR '','' s ! i)
      in owner (repoList s ! i) = Some (takeWhile (\<lambda>c. c \<noteq> CHR ''/'') e) \<and>
         repo (repoList s ! i) =
           (if CHR ''/'' \<in> set e
            then Some (takeWhile (\<lambda>c. c \<noteq> CHR ''/'')
                         (tl (dropWhile (\<lambda>c. c \<noteq> CHR ''/'') e)))
            else None))"
proof -
  have len: "length (repoList s) = Suc (count_list s CHR '','')"
    by (simp add: repoList_def length_split)
  have pulls: "length (pullRequestPromises getPRs (repoList s)) = length (repoList s)"
    by (simp add: pullRequestPromises_def)
  have labels: "length (labelPromises getLabels (repoList s)) = length (repoList s)"
    by (simp add: labelPromises_def)
  have refs: "\<forall>i < length (repoList s).
      let e = trim (split CHR '','' s ! i)
      in owner (repoList s ! i) = Some (takeWhile (\<lambda>c. c \<noteq> CHR ''/'') e) \<and>
         repo (repoList s ! i) =
           (if CHR ''/'' \<in> set e
            then Some (takeWhile (\<lambda>c. c \<noteq> CHR ''/'')
                         (tl (dropWhile (\<lambda>c. c \<noteq> CHR ''/'') e)))
            else None)"
    by (simp add: repoList_def ref_of_entry Let_def)
  from len pulls labels refs show ?thesis by blast
qed

theorem repoList_keeps_every_entry_witness:
  "length (repoList ''acme/web,oops'') = 2 \<and>
   length (pullRequestPromises all_succeed_pulls (repoList ''acme/web,oops'')) = 2 \<and>
   owner (repoList ''acme/web,oops'' ! 1) = Some ''oops'' \<and>
   repo (repoList ''acme/web,oops'' ! 1) = None"
  using repoList_keeps_every_entry [of "''acme/web,oops''" all_succeed_pulls]
  by (simp add: Let_def trim_def is_ws_def)

text \<open>
  C9 as claimed fails: the entry \<open>oops\<close> has no slash, yet it stays in the dispatched
  list with an undefined name, and the call made for it contributes a result.
\<close>

theorem malformed_entry_is_dispatched:
  "repoList ''acme/web,oops'' =
     [\<lparr>owner = Some ''acme'', repo = Some ''web''\<rparr>, \<lparr>owner = Some ''oops'', repo = None\<rparr>] \<and>
   getPullRequestsForRepositories all_succeed_pulls (repoList ''acme/web,oops'') =
     Inr [\<lparr>pe_repository = ''acme/web'', pe_pullRequests = []\<rparr>,
          \<lparr>pe_repository = ''oops/undefined'', pe_pullRequests = []\<rparr>]"
  unfolding sample_repoList
  by (simp add: getPullRequestsForRepositories_def allSettled_def pullRequestPromises_def
        pullRequestPromise_def all_succeed_pulls_def enumerate_eq_zip upt_rec)

subsection \<open>Remote API client\<close>









lemma updateRateLimit_remaining:
  "rateLimitRemaining (updateRateLimit this response) =
     (case rs_ratelimit_remaining response of
        None \<Rightarrow> rateLimitRemaining this
      | Some h \<Rightarrow> if h \<noteq> [] then Some (parseInt h) else rateLimitRemaining this)"
  by (simp add: updateRateLimit_def Let_def split: option.splits)

lemma updateRateLimit_reset:
  "rateLimitReset (updateRateLimit this response) =
     (case rs_ratelimit_reset response of
        None \<Rightarrow> rateLimitReset this
      | Some h \<Rightarrow> if h \<noteq> [] then Some (js_times (parseInt h) 1000) else rateLimitReset this)"
  by (simp add: updateRateLimit_def Let_def split: option.splits)

lemma updateRateLimit_frame:
  "token (updateRateLimit this response) = token this"
  "baseUrl (updateRateLimit this response) = baseUrl this"
  by (simp_all add: updateRateLimit_def Let_def split: option.splits)

lemma fetch_client_no_response:
  "sent (fetch http toISOString now1 now2 this endpoint) = [] \<Longrightarrow>
     client (fetch http toISOString now1 now2 this endpoint) = this"
  by (simp add: fetch_def Let_def split: option.splits sum.splits if_splits)

lemma fetch_client_rejected:
  "http (request_of this endpoint) = Inl e \<Longrightarrow>
     client (fetch http toISOString now1 now2 this endpoint) = this"
  by (simp add: fetch_def Let_def split: option.splits)

lemma fetch_client_response:
  "sent (fetch http toISOString now1 now2 this endpoint) \<noteq> [] \<Longrightarrow>
   http (request_of this endpoint) = Inr response \<Longrightarrow>
     client (fetch http toISOString now1 now2 this endpoint) = updateRateLimit this response"
  by (simp add: fetch_def Let_def split: option.splits)

text \<open>
  C8, as the source has it. The counters follow the rate-limit headers of every response
  received, whether it is a success or not: each counter is overwritten when its header
  is present and non-empty and keeps its value otherwise, and the token and base URL
  never change. A request that ends without a response (the rate-limit short circuit,
  or a rejected HTTP call) leaves the whole client unchanged.
\<close>

theorem fetch_counters_follow_every_response:
  "(sent (fetch http toISOString now1 now2 this endpoint) = [] \<longrightarrow>
      client (fetch http toISOString now1 now2 this endpoint) = this) \<and>
   (http (request_of this endpoint) = Inl e \<longrightarrow>
      client (fetch http toISOString now1 now2 this endpoint) = this) \<and>
   (sent (fetch http toISOString now1 now2 this endpoint) \<noteq> [] \<and>
    http (request_of this endpoint) = Inr response \<longrightarrow>
      rateLimitRemaining (client (fetch http toISOString now1 now2 this endpoint)) =
        (case rs_ratelimit_remaining response of
           None \<Rightarrow> rateLimitRemaining this
         | Some h \<Rightarrow> if h \<noteq> [] then Some (parseInt h) else rateLimitRemaining this) \<and>
      rateLimitReset (client (fetch http toISOString now1 now2 this endpoint)) =
        (case rs_ratelimit_reset response of
           None \<Rightarrow> rateLimitReset this
         | Some h \<Rightarrow> if h \<noteq> [] then Some (js_times (parseInt h) 1000)
                    else rateLimitReset this) \<and>
      token (client (fetch http toISOString now1 now2 this endpoint)) = token this \<and>
      baseUrl (client (fetch http toISOString now1 now2 this endpoint)) = baseUrl this)"
proof (intro conjI impI)
  assume "sent (fetch http toISOString now1 now2 this endpoint) = []"
  then show "client (fetch http toISOString now1 now2 this endpoint) = this"
    by (rule fetch_client_no_response)
next
  assume "http (request_of this endpoint) = Inl e"
  then show "client (fetch http toISOString now1 now2 this endpoint) = this"
    by (rule fetch_client_rejected)
next
  assume "sent (fetch http toISOString now1 now2 this endpoint) \<noteq> [] \<and>
    http (request_of this endpoint) = Inr response"
  then have c: "client (fetch http toISOString now1 now2 this endpoint) =
      updateRateLimit this response"
    by (simp add: fetch_client_response)
  show "rateLimitRemaining (client (fetch http toISOString now1 now2 this endpoint)) =
        (case rs_ratelimit_remaining response of
           None \<Rightarrow> rateLimitRemaining this
         | Some h \<Rightarrow> if h \<noteq> [] then Some (parseInt h) else rateLimitRemaining this)"
    unfolding c by (rule updateRateLimit_remaining)
  show "rateLimitReset (client (fetch http toISOString now1 now2 this endpoint)) =
        (case rs_ratelimit_reset response of
           None \<Rightarrow> rateLimitReset this
         | Some h \<Rightarrow> if h \<noteq> [] then Some (js_times (parseInt h) 1000)
                    else rateLimitReset this)"
    unfolding c by (rule updateRateLimit_reset)
  show "token (client (fetch http toISOString now1 now2 this endpoint)) = token this"
    unfolding c by (rule updateRateLimit_frame)
  show "baseUrl (client (fetch http toISOString now1 now2 this endpoint)) = baseUrl this"
    unfolding c by (rule updateRateLimit_frame)
qed

lemma parseInt_samples:
  "parseInt ''0'' = Num 0" "parseInt ''1704067200'' = Num 1704067200"
  "parseInt ''4999'' = Num 4999" "parseInt ''1704070800'' = Num 1704070800"
  by (simp_all add: parseInt_def parse_digits_def is_ws_def is_digit_def digits_value_def)

theorem fetch_counters_follow_every_response_witness:
  "sent (fetch http_ok sample_toISOString 1704067100000 1704067100000 exhausted_client
           ''/user/repos'') = [] \<and>
   client (fetch http_ok sample_toISOString 1704067100000 1704067100000 exhausted_client
             ''/user/repos'') = exhausted_client \<and>
   http_unreachable (request_of exhausted_client ''/user/repos'') =
     Inl (NetworkError ''fetch failed'') \<and>
   client (fetch http_unreachable sample_toISOString 1704067200000 1704067200000
             exhausted_client ''/user/repos'') = exhausted_client \<and>
   sent (fetch http_forbidden sample_toISOString 1704060000000 1704060000000
           (newGitHubClient ''t0ken'' None) ''/user/repos'') \<noteq> [] \<and>
   rateLimitRemaining
     (client (fetch http_forbidden sample_toISOString 1704060000000 1704060000000
                (newGitHubClient ''t0ken'' None) ''/user/repos'')) = Some (Num 0) \<and>
   rateLimitReset
     (client (fetch http_ok sample_toISOString 1704067200000 1704067200000
                exhausted_client ''/user/repos'')) = Some (Num 1704070800000)"
proof -
  have blocked: "sent (fetch http_ok sample_toISOString 1704067100000 1704067100000
      exhausted_client ''/user/repos'') = []"
    by (simp add: fetch_def rateLimitCheck_def exhausted_client_def Let_def)
  have unreachable: "http_unreachable (request_of exhausted_client ''/user/repos'') =
     Inl (NetworkError ''fetch failed'')"
    by (simp add: http_unreachable_def)
  have sent1: "sent (fetch http_forbidden sample_toISOString 1704060000000 1704060000000
           (newGitHubClient ''t0ken'' None) ''/user/repos'') \<noteq> []"
    by (simp add: fetch_def rateLimitCheck_def newGitHubClient_def http_forbidden_def Let_def)
  have sent2: "sent (fetch http_ok sample_toISOString 1704067200000 1704067200000
           exhausted_client ''/user/repos'') \<noteq> []"
    by (simp add: fetch_def rateLimitCheck_def exhausted_client_def http_ok_def Let_def)
  have reply1: "http_forbidden (request_of (newGitHubClient ''t0ken'' None) ''/user/repos'') =
     Inr \<lparr>rs_ok = False, rs_status = 403, rs_statusText = ''Forbidden'',
          rs_ratelimit_remaining = Some ''0'', rs_ratelimit_reset = Some ''1704067200'',
          rs_error_json = Some \<lparr>eb_message = ''API rate limit exceeded'',
                                 eb_documentation_url = None, eb_status = None\<rparr>,
          rs_json = None\<rparr>"
    by (simp add: http_forbidden_def)
  have reply2: "http_ok (request_of exhausted_client ''/user/repos'') =
     Inr \<lparr>rs_ok = True, rs_status = 200, rs_statusText = ''OK'',
          rs_ratelimit_remaining = Some ''4999'', rs_ratelimit_reset = Some ''1704070800'',
          rs_error_json = None, rs_json = Some ()\<rparr>"
    by (simp add: http_ok_def)
  note no_response = fetch_counters_follow_every_response
      [of http_ok sample_toISOString 1704067100000 1704067100000 exhausted_client
          "''/user/repos''", THEN conjunct1, rule_format, OF blocked]
  note rejected = fetch_counters_follow_every_response
      [of http_unreachable sample_toISOString 1704067200000 1704067200000 exhausted_client
          "''/user/repos''" "NetworkError ''fetch failed''",
       THEN conjunct2, THEN conjunct1, rule_format, OF unreachable]
  note forbidden = fetch_counters_follow_every_response
      [of http_forbidden sample_toISOString 1704060000000 1704060000000
          "newGitHubClient ''t0ken'' None" "''/user/repos''",
       THEN conjunct2, THEN conjunct2, rule_format, OF conjI, OF sent1 reply1]
  note ok = fetch_counters_follow_every_response
      [of http_ok sample_toISOString 1704067200000 1704067200000
          exhausted_client "''/user/repos''",
       THEN conjunct2, THEN conjunct2, rule_format, OF conjI, OF sent2 reply2]
  have f: "rateLimitRemaining
     (client (fetch http_forbidden sample_toISOString 1704060000000 1704060000000
                (newGitHubClient ''t0ken'' None) ''/user/repos'')) = Some (Num 0)"
    using forbidden by (simp add: parseInt_samples)
  have k: "rateLimitReset
     (client (fetch http_ok sample_toISOString 1704067200000 1704067200000
                exhausted_client ''/user/repos'')) = Some (Num 1704070800000)"
    using ok by (simp add: parseInt_samples)
  from blocked no_response unreachable rejected sent1 f k show ?thesis
    by (intro conjI)
qed

text \<open>
  C8 as claimed fails: a 403 response carrying the headers of an exhausted rate limit
  makes \<open>fetch\<close> throw, and both counters of a fresh client change from unset to the
  header values.
\<close>

theorem failed_response_updates_counters:
  "outcome (fetch http_forbidden sample_toISOString 1704060000000 1704060000000
              (newGitHubClient ''t0ken'' None) ''/user/repos'') =
     Inl (GitHubAPIError ''API rate limit exceeded'' (Some 403)
            (Some \<lparr>eb_message = ''API rate limit exceeded'', eb_documentation_url = None,
                   eb_status = None\<rparr>)) \<and>
   rateLimitRemaining (newGitHubClient ''t0ken'' None) = None \<and>
   rateLimitReset (newGitHubClient ''t0ken'' None) = None \<and>
   rateLimitRemaining
     (client (fetch http_forbidden sample_toISOString 1704060000000 1704060000000
                (newGitHubClient ''t0ken'' None) ''/user/repos'')) = Some (Num 0) \<and>
   rateLimitReset
     (client (fetch http_forbidden sample_toISOString 1704060000000 1704060000000
                (newGitHubClient ''t0ken'' None) ''/user/repos'')) = Some (Num 1704067200000)"
  by (simp add: fetch_def rateLimitCheck_def newGitHubClient_def http_forbidden_def
        updateRateLimit_def parseInt_samples Let_def)

end
